theory Spec2Isabelle
  imports Main
begin

section \<open>Data model of the interception proxy\<close>

text \<open>
  The proxy of \<^verbatim>\<open>package main\<close> (type \<^verbatim>\<open>VouchProxy\<close>) is embedded as pure functions
  over an explicit state. Bytes are characters, a byte string is a \<^typ>\<open>string\<close>.
  A decoded JSON value (\<^verbatim>\<open>interface{}\<close>) is a \<open>json\<close> (the proxy never computes with
  numbers, which are kept as integers); a decoded JSON object
  (\<^verbatim>\<open>map[string]interface{}\<close>) is a finite map from keys to values, a nil map being
  identified with the empty one (the source only ever looks keys up or ranges over it).
\<close>

type_synonym bytes = string

datatype json =
    JNull
  | JBool bool
  | JNum int
  | JStr string
  | JArr "json list"
  | JObj "(string \<times> json) list"

type_synonym jmap = "string \<rightharpoonup> json"

text \<open>\<^verbatim>\<open>MCPRequest\<close> and \<^verbatim>\<open>MCPResponse\<close>, field by field.\<close>

record MCPRequest =
  req_JSONRPC :: string
  req_ID :: json
  req_Method :: string
  req_Params :: jmap

record MCPResponse =
  resp_JSONRPC :: string
  resp_ID :: json
  resp_Result :: jmap
  resp_Error :: jmap

text \<open>
  \<^verbatim>\<open>proxy.PolicyRule\<close> and \<^verbatim>\<open>proxy.PolicyConfig\<close> with the fields the proxy reads. The
  type of \<^verbatim>\<open>Conditions\<close> belongs to the policy package and stays a type parameter;
  \<open>None\<close> is the nil value.
\<close>

record 'c PolicyRule =
  rule_ID :: string
  MatchMethods :: "string list"
  Action :: string
  RiskLevel :: string
  Redact :: "string list"
  Conditions :: "'c option"

record 'c PolicyConfig =
  Version :: string
  Policies :: "'c PolicyRule list"

text \<open>\<^verbatim>\<open>proxy.Event\<close> with the fields the proxy sets; unset fields hold Go's zero values.\<close>

record Event =
  ev_ID :: string
  ev_Timestamp :: nat
  ev_EventType :: string
  ev_Method :: string
  ev_Params :: jmap
  ev_Response :: jmap
  ev_TaskID :: string
  ev_TaskState :: string
  ev_ParentID :: string
  ev_PolicyID :: string
  ev_RiskLevel :: string
  ev_WasBlocked :: bool

text \<open>
  An HTTP body is a stream that \<^verbatim>\<open>io.ReadAll\<close> either reads to its end or fails on.
  \<^verbatim>\<open>io.NopCloser(bytes.NewBuffer(b))\<close> is \<open>Body b\<close>.
\<close>

datatype body = Body bytes | BodyErr string

fun ReadAll :: "body \<Rightarrow> string + bytes" where
  "ReadAll (Body b) = Inr b"
| "ReadAll (BodyErr e) = Inl e"

record HttpRequest =
  hr_Method :: string
  hr_Path :: string
  hr_Body :: body

record HttpResponse =
  rs_StatusCode :: nat
  rs_Header :: "(string \<times> string) list"
  rs_Body :: body

datatype error =
    AssertionFailed string
  | InvalidJSONRPC
  | StallRejected
  | ReadError string

datatype LogLine =
    LogReadFailed string
  | LogSecurity string MCPResponse
  | LogStall string string string
  | LogStallWarning string nat
  | LogWaiting string
  | LogDropResponse
  | LogKeyRotation string string
  | LogSignal string bool

text \<open>
  The state of a \<^verbatim>\<open>VouchProxy\<close>. The ledger worker lives in another package; of it the
  state keeps the health flag that \<^verbatim>\<open>IsHealthy\<close> reads and the events handed to
  \<^verbatim>\<open>Submit\<close>, oldest first. An approval channel (\<^verbatim>\<open>make(chan bool, 1)\<close>) is its
  buffer, of capacity one. \<^verbatim>\<open>log.Printf\<close> output is kept as a list of lines.
\<close>

record 'c VouchProxy =
  worker_healthy :: bool
  submitted :: "Event list"
  activeTasks :: "string \<rightharpoonup> string"
  policy :: "'c PolicyConfig option"
  stallSignals :: "string \<rightharpoonup> bool list"
  lastEventByTask :: "string \<rightharpoonup> string"
  logged :: "LogLine list"

text \<open>
  Functions of other packages and of the standard library that the proxy calls:
  the two uses of \<^verbatim>\<open>json.Unmarshal\<close> (\<open>None\<close> when it returns an error),
  \<^verbatim>\<open>proxy.MatchPattern\<close> and \<^verbatim>\<open>proxy.CheckConditions\<close>. They are parameters.
\<close>

record 'c Deps =
  Unmarshal_request :: "bytes \<Rightarrow> MCPRequest option"
  Unmarshal_response :: "bytes \<Rightarrow> MCPResponse option"
  MatchPattern :: "string \<Rightarrow> string \<Rightarrow> bool"
  CheckConditions :: "'c \<Rightarrow> jmap \<Rightarrow> bool"

text \<open>
  What one request draws from its environment: the UUIDs and clock readings of the two
  events it may build, the task failure count read from the database, and the signals
  that reach the approval channel while the handler waits.
\<close>

datatype Signal = ApiApprove string | ApiReject string | StdinLine

record Env =
  stall_uuid :: string
  stall_now :: nat
  stall_failCount :: nat
  stall_signals :: "Signal list"
  call_uuid :: string
  call_now :: nat

section \<open>Helpers\<close>

text \<open>
  Modelled from the spec: \<^verbatim>\<open>assert.Check\<close> (package \<^verbatim>\<open>internal/assert\<close>, not among the
  sources). An assertion on a precondition fails the current request only: it returns an
  error when the condition is false, none otherwise.
\<close>

definition assert_Check :: "bool \<Rightarrow> string \<Rightarrow> error option" where
  "assert_Check cond msg = (if cond then None else Some (AssertionFailed msg))"

fun error_text :: "error \<Rightarrow> string" where
  "error_text (AssertionFailed msg) = msg"
| "error_text InvalidJSONRPC = ''invalid JSON-RPC''"
| "error_text StallRejected = ''stall rejected''"
| "error_text (ReadError e) = e"

definition nl :: string where
  "nl = [CHR 0x0A]"

definition TrimPrefix :: "string \<Rightarrow> string \<Rightarrow> string" where
  "TrimPrefix s pre = (if take (length pre) s = pre then drop (length pre) s else s)"

definition Printf :: "'c VouchProxy \<Rightarrow> LogLine \<Rightarrow> 'c VouchProxy" where
  "Printf v line = v\<lparr>logged := logged v @ [line]\<rparr>"

definition Submit :: "'c VouchProxy \<Rightarrow> Event \<Rightarrow> 'c VouchProxy" where
  "Submit v event = v\<lparr>submitted := submitted v @ [event]\<rparr>"

definition zero_Event :: Event where
  "zero_Event = \<lparr>ev_ID = '''', ev_Timestamp = 0, ev_EventType = '''', ev_Method = '''',
     ev_Params = Map.empty, ev_Response = Map.empty, ev_TaskID = '''', ev_TaskState = '''',
     ev_ParentID = '''', ev_PolicyID = '''', ev_RiskLevel = '''', ev_WasBlocked = False\<rparr>"

section \<open>The request path\<close>

text \<open>
  \<^verbatim>\<open>sendErrorResponse\<close>: builds the JSON-RPC error object, marshals it and logs it. The
  status code is not used, nothing is written to the client and the request is not
  touched, as in the source.
\<close>

definition sendErrorResponse :: "'c VouchProxy \<Rightarrow> nat \<Rightarrow> int \<Rightarrow> string \<Rightarrow> 'c VouchProxy" where
  "sendErrorResponse v statusCode code message =
     (let errorResp = \<lparr>resp_JSONRPC = ''2.0'', resp_ID = JNull, resp_Result = Map.empty,
            resp_Error = [''code'' \<mapsto> JNum code, ''message'' \<mapsto> JStr message]\<rparr>
      in Printf v (LogSecurity message errorResp))"

definition extractTaskMetadata ::
  "'c Deps \<Rightarrow> bytes \<Rightarrow> error + (MCPRequest \<times> string \<times> string)" where
  "extractTaskMetadata D body =
     (case assert_Check (length body > 0) ''request body is empty'' of
        Some err \<Rightarrow> Inl err
      | None \<Rightarrow>
     (case assert_Check (length body < 5 * 1024 * 1024) ''request body too large'' of
        Some err \<Rightarrow> Inl err
      | None \<Rightarrow>
     (case Unmarshal_request D body of
        None \<Rightarrow> Inl InvalidJSONRPC
      | Some mcpReq \<Rightarrow>
     (case assert_Check (req_Method mcpReq \<noteq> '''') ''method must not be empty'' of
        Some err \<Rightarrow> Inl err
      | None \<Rightarrow>
         (let taskID = (case req_Params mcpReq ''task_id'' of Some (JStr s) \<Rightarrow> s | _ \<Rightarrow> '''');
              taskState = ''working''
          in if taskID \<noteq> '''' then
               (case assert_Check (length taskID \<le> 64) ''task_id too long'' of
                  Some err \<Rightarrow> Inl err
                | None \<Rightarrow> Inr (mcpReq, taskID, taskState))
             else Inr (mcpReq, taskID, taskState))))))"

text \<open>
  \<^verbatim>\<open>shouldStallMethod\<close>. The inner loop over the patterns of one rule: \<^verbatim>\<open>continue\<close>
  goes on with the next pattern of the same rule.
\<close>

fun scan_patterns :: "'c Deps \<Rightarrow> 'c PolicyRule \<Rightarrow> string \<Rightarrow> jmap \<Rightarrow> string list \<Rightarrow> bool" where
  "scan_patterns D rule method params [] = False"
| "scan_patterns D rule method params (pattern # rest) =
     (if MatchPattern D pattern method then
        (case Conditions rule of
           Some c \<Rightarrow>
             (if \<not> CheckConditions D c params then scan_patterns D rule method params rest
              else True)
         | None \<Rightarrow> True)
      else scan_patterns D rule method params rest)"

fun scan_rules ::
  "'c Deps \<Rightarrow> string \<Rightarrow> jmap \<Rightarrow> 'c PolicyRule list \<Rightarrow> bool \<times> 'c PolicyRule option" where
  "scan_rules D method params [] = (False, None)"
| "scan_rules D method params (rule # rest) =
     (if Action rule \<noteq> ''stall'' then scan_rules D method params rest
      else if scan_patterns D rule method params (MatchMethods rule) then (True, Some rule)
      else scan_rules D method params rest)"

text \<open>
  The receiver's policy is dereferenced without a check; the only caller,
  \<^verbatim>\<open>evaluatePolicy\<close>, has checked it, so the function takes the configuration itself.
\<close>

definition shouldStallMethod ::
  "'c Deps \<Rightarrow> 'c PolicyConfig \<Rightarrow> string \<Rightarrow> jmap \<Rightarrow> bool \<times> 'c PolicyRule option" where
  "shouldStallMethod D cfg method params =
     (case assert_Check (method \<noteq> '''') ''method name must not be empty'' of
        Some err \<Rightarrow> (False, None)
      | None \<Rightarrow> scan_rules D method params (Policies cfg))"

definition evaluatePolicy ::
  "'c Deps \<Rightarrow> 'c VouchProxy \<Rightarrow> string \<Rightarrow> jmap \<Rightarrow> error + (bool \<times> 'c PolicyRule option)" where
  "evaluatePolicy D v method params =
     (case assert_Check (method \<noteq> '''') ''method name required'' of
        Some err \<Rightarrow> Inl err
      | None \<Rightarrow>
     (case policy v of
        None \<Rightarrow> Inl (AssertionFailed ''policy configuration missing'')
      | Some cfg \<Rightarrow> Inr (shouldStallMethod D cfg method params)))"

section \<open>The approval gateway\<close>

text \<open>
  \<^verbatim>\<open>handleApprove\<close> and \<^verbatim>\<open>handleReject\<close> on the path of the request. The
  \<^verbatim>\<open>select\<close> with a \<^verbatim>\<open>default\<close> branch sends when the buffer has room and answers 409
  otherwise. Neither handler, nor any other function, deletes from \<^verbatim>\<open>stallSignals\<close>.
  The result is the state, the status code and the body written.
\<close>

definition handleApprove :: "'c VouchProxy \<Rightarrow> string \<Rightarrow> 'c VouchProxy \<times> nat \<times> string" where
  "handleApprove v path =
     (let eventID = TrimPrefix path ''/api/approve/'' in
      if eventID = '''' then (v, 400, ''Event ID required'' @ nl)
      else
        (case stallSignals v eventID of
           None \<Rightarrow> (v, 404, ''Event not found or already processed'' @ nl)
         | Some approvalChan \<Rightarrow>
             if length approvalChan < 1 then
               (Printf (v\<lparr>stallSignals := (stallSignals v)(eventID \<mapsto> approvalChan @ [True])\<rparr>)
                  (LogSignal eventID True),
                200, ''Event approved'' @ nl)
             else (v, 409, ''Event already processed'' @ nl)))"

definition handleReject :: "'c VouchProxy \<Rightarrow> string \<Rightarrow> 'c VouchProxy \<times> nat \<times> string" where
  "handleReject v path =
     (let eventID = TrimPrefix path ''/api/reject/'' in
      if eventID = '''' then (v, 400, ''Event ID required'' @ nl)
      else
        (case stallSignals v eventID of
           None \<Rightarrow> (v, 404, ''Event not found or already processed'' @ nl)
         | Some approvalChan \<Rightarrow>
             if length approvalChan < 1 then
               (Printf (v\<lparr>stallSignals := (stallSignals v)(eventID \<mapsto> approvalChan @ [False])\<rparr>)
                  (LogSignal eventID False),
                200, ''Event rejected'' @ nl)
             else (v, 409, ''Event already processed'' @ nl)))"

text \<open>
  The goroutine that \<^verbatim>\<open>handleStall\<close> starts reads a line from standard input and, when
  the event is registered, sends \<open>True\<close> on the channel; on a full buffer it blocks for
  good and changes nothing.
\<close>

definition stdin_signal :: "'c VouchProxy \<Rightarrow> string \<Rightarrow> 'c VouchProxy" where
  "stdin_signal v eventID =
     (case stallSignals v eventID of
        None \<Rightarrow> v
      | Some approvalChan \<Rightarrow>
          if length approvalChan < 1 then
            v\<lparr>stallSignals := (stallSignals v)(eventID \<mapsto> approvalChan @ [True])\<rparr>
          else v)"

fun deliver_signal :: "string \<Rightarrow> 'c VouchProxy \<Rightarrow> Signal \<Rightarrow> 'c VouchProxy" where
  "deliver_signal eventID v (ApiApprove path) = fst (handleApprove v path)"
| "deliver_signal eventID v (ApiReject path) = fst (handleReject v path)"
| "deliver_signal eventID v StdinLine = stdin_signal v eventID"

text \<open>The receive \<^verbatim>\<open><-approvalChan\<close>: \<open>None\<close> while the buffer is empty.\<close>

definition chan_recv :: "'c VouchProxy \<Rightarrow> string \<Rightarrow> (bool \<times> 'c VouchProxy) option" where
  "chan_recv v eventID =
     (case stallSignals v eventID of
        Some (x # rest) \<Rightarrow> Some (x, v\<lparr>stallSignals := (stallSignals v)(eventID \<mapsto> rest)\<rparr>)
      | _ \<Rightarrow> None)"

section \<open>Stall, commit and the request hook\<close>

text \<open>
  \<^verbatim>\<open>handleStall\<close>. It submits the \<^verbatim>\<open>blocked\<close> event, registers a fresh channel and
  waits on it. The wait has no deadline: when no signal arrives the function never
  returns, which is the result \<open>StallWaiting\<close>. The request pointer is never nil at the
  only call, so the request is taken by value.
\<close>

datatype StallResult = StallReturned "error option" | StallWaiting

definition handleStall ::
  "Env \<Rightarrow> 'c VouchProxy \<Rightarrow> string \<Rightarrow> string \<Rightarrow> MCPRequest \<Rightarrow> 'c PolicyRule option
     \<Rightarrow> 'c VouchProxy \<times> StallResult" where
  "handleStall E v taskID taskState mcpReq matchedRule =
     (case matchedRule of
        None \<Rightarrow> (v, StallReturned (Some (AssertionFailed ''matchedRule must not be nil'')))
      | Some rule \<Rightarrow>
          (let eventID = take 8 (stall_uuid E);
               v1 = Printf v (LogStall (req_Method mcpReq) (rule_ID rule) eventID);
               event = zero_Event\<lparr>
                 ev_ID := eventID,
                 ev_Timestamp := stall_now E,
                 ev_EventType := ''blocked'',
                 ev_Method := req_Method mcpReq,
                 ev_Params := req_Params mcpReq,
                 ev_TaskID := taskID,
                 ev_TaskState := taskState,
                 ev_PolicyID := rule_ID rule,
                 ev_RiskLevel := RiskLevel rule,
                 ev_WasBlocked := True\<rparr>;
               v2 = Submit v1 event;
               v3 = v2\<lparr>stallSignals := (stallSignals v2)(eventID \<mapsto> [])\<rparr>;
               v4 = (if taskID \<noteq> '''' then
                       (if stall_failCount E > 0
                        then Printf v3 (LogStallWarning taskID (stall_failCount E)) else v3)
                     else v3);
               v5 = Printf v4 (LogWaiting eventID);
               v6 = foldl (deliver_signal eventID) v5 (stall_signals E)
           in case chan_recv v6 eventID of
                None \<Rightarrow> (v6, StallWaiting)
              | Some (approved, v7) \<Rightarrow>
                  if \<not> approved then (v7, StallReturned (Some StallRejected))
                  else (v7, StallReturned None)))"

text \<open>\<^verbatim>\<open>redactParams\<close>: the inner loop over the keys, then the loop over the map.\<close>

fun shouldRedact :: "string \<Rightarrow> string list \<Rightarrow> bool" where
  "shouldRedact k [] = False"
| "shouldRedact k (key # keys) = (if k = key then True else shouldRedact k keys)"

definition redactParams :: "jmap \<Rightarrow> string list \<Rightarrow> jmap" where
  "redactParams params keys =
     (\<lambda>k. case params k of
             None \<Rightarrow> None
           | Some val \<Rightarrow> if shouldRedact k keys then Some (JStr ''[REDACTED]'') else Some val)"

definition redactSensitiveData :: "jmap \<Rightarrow> string list \<Rightarrow> jmap" where
  "redactSensitiveData params keys = redactParams params keys"

definition submitToolCallEvent ::
  "Env \<Rightarrow> 'c VouchProxy \<Rightarrow> string \<Rightarrow> string \<Rightarrow> MCPRequest \<Rightarrow> 'c PolicyRule option
     \<Rightarrow> 'c VouchProxy" where
  "submitToolCallEvent E v taskID taskState mcpReq matchedRule =
     (let event = zero_Event\<lparr>
            ev_ID := take 8 (call_uuid E),
            ev_Timestamp := call_now E,
            ev_EventType := ''tool_call'',
            ev_Method := req_Method mcpReq,
            ev_Params := req_Params mcpReq,
            ev_TaskID := taskID,
            ev_TaskState := taskState\<rparr>;
          event1 =
            (case matchedRule of
               None \<Rightarrow> event
             | Some rule \<Rightarrow>
                 (let e = event\<lparr>ev_PolicyID := rule_ID rule, ev_RiskLevel := RiskLevel rule\<rparr>
                  in if length (Redact rule) > 0
                     then e\<lparr>ev_Params := redactSensitiveData (req_Params mcpReq) (Redact rule)\<rparr>
                     else e))
      in if taskID \<noteq> '''' then
           (let event2 = (case lastEventByTask v taskID of
                            Some parentID \<Rightarrow> event1\<lparr>ev_ParentID := parentID\<rparr>
                          | None \<Rightarrow> event1);
                v1 = v\<lparr>lastEventByTask := (lastEventByTask v)(taskID \<mapsto> ev_ID event2)\<rparr>;
                v2 = v1\<lparr>activeTasks := (activeTasks v1)(taskID \<mapsto> taskState)\<rparr>
            in Submit v2 event2)
         else Submit v event1)"

text \<open>
  \<^verbatim>\<open>interceptRequest\<close>. The function has no result; what it leaves behind is the state and
  the request (its body restored after reading). \<open>Waiting\<close> is the call that never
  returns because its stall is never signalled.
\<close>

datatype Outcome = Returned | Waiting

definition interceptRequest ::
  "'c Deps \<Rightarrow> Env \<Rightarrow> 'c VouchProxy \<Rightarrow> HttpRequest \<Rightarrow> 'c VouchProxy \<times> HttpRequest \<times> Outcome" where
  "interceptRequest D E v req =
     (if hr_Method req \<noteq> ''POST'' then (v, req, Returned)
      else
        (case ReadAll (hr_Body req) of
           Inl e \<Rightarrow> (Printf v (LogReadFailed e), req, Returned)
         | Inr bodyBytes \<Rightarrow>
             (let req1 = req\<lparr>hr_Body := Body bodyBytes\<rparr> in
              case extractTaskMetadata D bodyBytes of
                Inl err \<Rightarrow> (sendErrorResponse v 400 (- 32000) (error_text err), req1, Returned)
              | Inr (mcpReq, taskID, taskState) \<Rightarrow>
                  if \<not> worker_healthy v then
                    (sendErrorResponse v 503 (- 32000) ''Ledger Storage Failure'', req1, Returned)
                  else
                    (case evaluatePolicy D v (req_Method mcpReq) (req_Params mcpReq) of
                       Inl err \<Rightarrow>
                         (sendErrorResponse v 400 (- 32000) ''Policy violation'', req1, Returned)
                     | Inr (shouldStall, matchedRule) \<Rightarrow>
                         if shouldStall then
                           (case handleStall E v taskID taskState mcpReq matchedRule of
                              (v1, StallWaiting) \<Rightarrow> (v1, req1, Waiting)
                            | (v1, StallReturned (Some err)) \<Rightarrow>
                                (sendErrorResponse v1 403 (- 32000) ''Stall rejected or failed'',
                                 req1, Returned)
                            | (v1, StallReturned None) \<Rightarrow>
                                (submitToolCallEvent E v1 taskID taskState mcpReq matchedRule,
                                 req1, Returned))
                         else
                           (submitToolCallEvent E v taskID taskState mcpReq matchedRule,
                            req1, Returned)))))"

section \<open>The response path\<close>

record RespEnv =
  resp_uuid :: string
  resp_now :: nat

text \<open>
  \<^verbatim>\<open>interceptResponse\<close>: the state, the response as it is left, and the error returned
  (\<open>None\<close> for nil).
\<close>

definition interceptResponse ::
  "'c Deps \<Rightarrow> RespEnv \<Rightarrow> 'c VouchProxy \<Rightarrow> HttpResponse
     \<Rightarrow> 'c VouchProxy \<times> HttpResponse \<times> error option" where
  "interceptResponse D R v resp =
     (case ReadAll (rs_Body resp) of
        Inl e \<Rightarrow> (v, resp, Some (ReadError e))
      | Inr bodyBytes \<Rightarrow>
          (let resp1 = resp\<lparr>rs_Body := Body bodyBytes\<rparr> in
           case Unmarshal_response D bodyBytes of
             None \<Rightarrow> (v, resp1, None)
           | Some mcpResp \<Rightarrow>
               if \<not> worker_healthy v then (Printf v LogDropResponse, resp1, None)
               else
                 (let result = resp_Result mcpResp;
                      taskID = (case result ''task_id'' of Some (JStr tid) \<Rightarrow> tid | _ \<Rightarrow> '''');
                      taskState = (case result ''state'' of Some (JStr state) \<Rightarrow> state | _ \<Rightarrow> '''');
                      v1 = (case result ''state'' of
                              Some (JStr state) \<Rightarrow>
                                if taskID \<noteq> ''''
                                then v\<lparr>activeTasks := (activeTasks v)(taskID \<mapsto> state)\<rparr>
                                else v
                            | _ \<Rightarrow> v);
                      event = zero_Event\<lparr>
                        ev_ID := take 8 (resp_uuid R),
                        ev_Timestamp := resp_now R,
                        ev_EventType := ''tool_response'',
                        ev_Response := resp_Result mcpResp,
                        ev_TaskID := taskID,
                        ev_TaskState := taskState\<rparr>
                  in (Submit v1 event, resp1, None))))"

section \<open>Key rotation\<close>

text \<open>
  \<^verbatim>\<open>handleRekey\<close>. \<^verbatim>\<open>Signer.RotateKey\<close> belongs to the crypto package; its result, an error
  text or the old and new public keys in hex, is the first argument.
\<close>

definition handleRekey ::
  "string + (string \<times> string) \<Rightarrow> 'c VouchProxy \<Rightarrow> 'c VouchProxy \<times> nat \<times> string" where
  "handleRekey rotated v =
     (case rotated of
        Inl err \<Rightarrow> (v, 500, ''Failed to rotate key: '' @ err @ nl)
      | Inr (oldPubKey, newPubKey) \<Rightarrow>
          (Printf v (LogKeyRotation oldPubKey newPubKey), 200,
           ''Key rotated successfully'' @ nl @ ''Old: '' @ oldPubKey @ nl @ ''New: '' @ newPubKey))"

section \<open>The reverse proxy around the two hooks\<close>

text \<open>
  \<^verbatim>\<open>main\<close> installs \<^verbatim>\<open>interceptRequest\<close> in the \<^verbatim>\<open>Director\<close> of a
  \<^verbatim>\<open>httputil.ReverseProxy\<close> and \<^verbatim>\<open>interceptResponse\<close> as its \<^verbatim>\<open>ModifyResponse\<close>. The
  standard library's proxy calls the director on the outgoing request, sends that
  request upstream whatever the director did, passes the answer to \<^verbatim>\<open>ModifyResponse\<close>,
  and writes the answer to the client, or 502 when \<^verbatim>\<open>ModifyResponse\<close> returned an error.
  The upstream server is a function from requests to responses. The result is the
  state, the requests sent upstream and the response the client receives (\<open>None\<close> while
  the director has not returned).
\<close>

definition BadGateway :: HttpResponse where
  "BadGateway = \<lparr>rs_StatusCode = 502, rs_Header = [], rs_Body = Body ''''\<rparr>"

definition ServeHTTP ::
  "'c Deps \<Rightarrow> Env \<Rightarrow> RespEnv \<Rightarrow> (HttpRequest \<Rightarrow> HttpResponse) \<Rightarrow> 'c VouchProxy \<Rightarrow> HttpRequest
     \<Rightarrow> 'c VouchProxy \<times> HttpRequest list \<times> HttpResponse option" where
  "ServeHTTP D E R upstream v req =
     (case interceptRequest D E v req of
        (v1, outreq, Waiting) \<Rightarrow> (v1, [], None)
      | (v1, outreq, Returned) \<Rightarrow>
          (case interceptResponse D R v1 (upstream outreq) of
             (v2, resp, Some err) \<Rightarrow> (v2, [outreq], Some BadGateway)
           | (v2, resp, None) \<Rightarrow> (v2, [outreq], Some resp)))"

section \<open>Runs of the proxy\<close>

text \<open>
  The state \<^verbatim>\<open>main\<close> builds: empty maps, nothing submitted, the loaded policy. A run is a
  sequence of calls of the handlers, each taken as one step; between them the worker may
  flip its health flag, and a call left waiting in its stall may go on.
\<close>

definition new_proxy :: "'c PolicyConfig option \<Rightarrow> 'c VouchProxy" where
  "new_proxy pol = \<lparr>worker_healthy = True, submitted = [], activeTasks = Map.empty,
     policy = pol, stallSignals = Map.empty, lastEventByTask = Map.empty, logged = []\<rparr>"

text \<open>
  A call of \<^verbatim>\<open>interceptRequest\<close> that was left waiting in its stall goes on when a later
  signal has reached its channel: it receives the value and finishes as the function
  does after \<^verbatim>\<open>handleStall\<close>. With an empty buffer it goes on waiting.
\<close>

definition resume_stall ::
  "Env \<Rightarrow> 'c VouchProxy \<Rightarrow> string \<Rightarrow> string \<Rightarrow> MCPRequest \<Rightarrow> 'c PolicyRule option
     \<Rightarrow> 'c VouchProxy" where
  "resume_stall E v taskID taskState mcpReq matchedRule =
     (case chan_recv v (take 8 (stall_uuid E)) of
        None \<Rightarrow> v
      | Some (approved, v1) \<Rightarrow>
          if \<not> approved then sendErrorResponse v1 403 (- 32000) ''Stall rejected or failed''
          else submitToolCallEvent E v1 taskID taskState mcpReq matchedRule)"

datatype 'c Op =
    OpRequest Env HttpRequest
  | OpResume Env string string MCPRequest "'c PolicyRule option"
  | OpResponse RespEnv HttpResponse
  | OpApprove string
  | OpReject string
  | OpRekey "string + (string \<times> string)"
  | OpHealth bool

fun step :: "'c Deps \<Rightarrow> 'c VouchProxy \<Rightarrow> 'c Op \<Rightarrow> 'c VouchProxy" where
  "step D v (OpRequest E req) = fst (interceptRequest D E v req)"
| "step D v (OpResume E taskID taskState mcpReq matchedRule) =
     resume_stall E v taskID taskState mcpReq matchedRule"
| "step D v (OpResponse R resp) = fst (interceptResponse D R v resp)"
| "step D v (OpApprove path) = fst (handleApprove v path)"
| "step D v (OpReject path) = fst (handleReject v path)"
| "step D v (OpRekey rotated) = fst (handleRekey rotated v)"
| "step D v (OpHealth h) = v\<lparr>worker_healthy := h\<rparr>"

definition run :: "'c Deps \<Rightarrow> 'c VouchProxy \<Rightarrow> 'c Op list \<Rightarrow> 'c VouchProxy" where
  "run D v ops = foldl (step D) v ops"

section \<open>Notions the properties are stated with\<close>

text \<open>
  A rule applies to a call when one of its patterns matches the method and its
  conditions, if it has any, hold over the parameters.
\<close>

definition rule_applies :: "'c Deps \<Rightarrow> 'c PolicyRule \<Rightarrow> string \<Rightarrow> jmap \<Rightarrow> bool" where
  "rule_applies D rule method params =
     (list_ex (\<lambda>pattern. MatchPattern D pattern method) (MatchMethods rule) \<and>
      (case Conditions rule of None \<Rightarrow> True | Some c \<Rightarrow> CheckConditions D c params))"

text \<open>
  The decision function in the specification's words: the first rule in declaration
  order that applies, whatever its action.
\<close>

definition spec_decision ::
  "'c Deps \<Rightarrow> 'c PolicyConfig \<Rightarrow> string \<Rightarrow> jmap \<Rightarrow> 'c PolicyRule option" where
  "spec_decision D cfg method params =
     find (\<lambda>rule. rule_applies D rule method params) (Policies cfg)"

text \<open>The position of the last element of a list that satisfies a predicate.\<close>

fun last_index :: "('a \<Rightarrow> bool) \<Rightarrow> 'a list \<Rightarrow> nat option" where
  "last_index P [] = None"
| "last_index P (x # xs) =
     (case last_index P xs of
        Some j \<Rightarrow> Some (Suc j)
      | None \<Rightarrow> if P x then Some 0 else None)"

definition call_of :: "string \<Rightarrow> Event \<Rightarrow> bool" where
  "call_of t e = (ev_EventType e = ''tool_call'' \<and> ev_TaskID e = t)"

text \<open>
  The parent of the event at position \<open>i\<close>: the position of the most recent earlier
  \<^verbatim>\<open>tool_call\<close> event of the same task.
\<close>

definition parent_index :: "Event list \<Rightarrow> nat \<Rightarrow> nat option" where
  "parent_index evs i = last_index (call_of (ev_TaskID (evs ! i))) (take i evs)"

section \<open>Concrete inputs\<close>

text \<open>
  A decoder that knows the bodies below, a matcher for exact names and \<open>*\<close>, and
  conditions of the form key equals value.
\<close>

definition body_read :: bytes where
  "body_read = ''{\"jsonrpc\":\"2.0\",\"id\":1,\"method\":\"fs.read\",\"params\":{\"path\":\"/etc/hosts\",\"task_id\":\"T1\"}}''"

definition body_drop :: bytes where
  "body_drop = ''{\"jsonrpc\":\"2.0\",\"id\":2,\"method\":\"db.drop_root\",\"params\":{\"table\":\"users\",\"task_id\":\"T2\"}}''"

definition body_login :: bytes where
  "body_login = ''{\"jsonrpc\":\"2.0\",\"id\":3,\"method\":\"auth.login\",\"params\":{\"user\":\"a\",\"password\":\"p\",\"token\":\"t\"}}''"

definition body_result :: bytes where
  "body_result = ''{\"jsonrpc\":\"2.0\",\"id\":1,\"result\":{\"task_id\":\"T1\",\"state\":\"completed\"}}''"

definition mcp_read :: MCPRequest where
  "mcp_read = \<lparr>req_JSONRPC = ''2.0'', req_ID = JNum 1, req_Method = ''fs.read'',
     req_Params = [''path'' \<mapsto> JStr ''/etc/hosts'', ''task_id'' \<mapsto> JStr ''T1'']\<rparr>"

definition mcp_drop :: MCPRequest where
  "mcp_drop = \<lparr>req_JSONRPC = ''2.0'', req_ID = JNum 2, req_Method = ''db.drop_root'',
     req_Params = [''table'' \<mapsto> JStr ''users'', ''task_id'' \<mapsto> JStr ''T2'']\<rparr>"

definition mcp_login :: MCPRequest where
  "mcp_login = \<lparr>req_JSONRPC = ''2.0'', req_ID = JNum 3, req_Method = ''auth.login'',
     req_Params = [''user'' \<mapsto> JStr ''a'', ''password'' \<mapsto> JStr ''p'', ''token'' \<mapsto> JStr ''t'']\<rparr>"

definition mcp_result :: MCPResponse where
  "mcp_result = \<lparr>resp_JSONRPC = ''2.0'', resp_ID = JNum 1,
     resp_Result = [''task_id'' \<mapsto> JStr ''T1'', ''state'' \<mapsto> JStr ''completed''],
     resp_Error = Map.empty\<rparr>"

definition demo_deps :: "(string \<times> json) Deps" where
  "demo_deps = \<lparr>
     Unmarshal_request = (\<lambda>b. if b = body_read then Some mcp_read
                               else if b = body_drop then Some mcp_drop
                               else if b = body_login then Some mcp_login
                               else None),
     Unmarshal_response = (\<lambda>b. if b = body_result then Some mcp_result else None),
     MatchPattern = (\<lambda>pattern method. pattern = ''*'' \<or> pattern = method),
     CheckConditions = (\<lambda>c params. params (fst c) = Some (snd c))\<rparr>"

definition audit_all :: "(string \<times> json) PolicyRule" where
  "audit_all = \<lparr>rule_ID = ''audit-all'', MatchMethods = [''*''], Action = ''allow'',
     RiskLevel = ''low'', Redact = [], Conditions = None\<rparr>"

definition protect_database :: "(string \<times> json) PolicyRule" where
  "protect_database = \<lparr>rule_ID = ''protect-database'',
     MatchMethods = [''sql.execute'', ''db.query'', ''db.drop_root''], Action = ''stall'',
     RiskLevel = ''critical'', Redact = [''table''], Conditions = None\<rparr>"

definition redact_auth :: "(string \<times> json) PolicyRule" where
  "redact_auth = \<lparr>rule_ID = ''redact-auth'', MatchMethods = [''auth.login''], Action = ''allow'',
     RiskLevel = ''high'', Redact = [''password'', ''token''], Conditions = None\<rparr>"

definition demo_policy :: "(string \<times> json) PolicyConfig" where
  "demo_policy = \<lparr>Version = ''1'', Policies = [audit_all, protect_database]\<rparr>"

definition login_policy :: "(string \<times> json) PolicyConfig" where
  "login_policy = \<lparr>Version = ''1'', Policies = [redact_auth]\<rparr>"

definition demo_proxy :: "(string \<times> json) VouchProxy" where
  "demo_proxy = new_proxy (Some demo_policy)"

definition post_read :: HttpRequest where
  "post_read = \<lparr>hr_Method = ''POST'', hr_Path = ''/'', hr_Body = Body body_read\<rparr>"

definition post_drop :: HttpRequest where
  "post_drop = \<lparr>hr_Method = ''POST'', hr_Path = ''/'', hr_Body = Body body_drop\<rparr>"

definition post_login :: HttpRequest where
  "post_login = \<lparr>hr_Method = ''POST'', hr_Path = ''/'', hr_Body = Body body_login\<rparr>"

definition post_huge :: HttpRequest where
  "post_huge = \<lparr>hr_Method = ''POST'', hr_Path = ''/'',
     hr_Body = Body (replicate (5 * 1024 * 1024 + 1) CHR ''a'')\<rparr>"

definition get_root :: HttpRequest where
  "get_root = \<lparr>hr_Method = ''GET'', hr_Path = ''/'', hr_Body = Body ''''\<rparr>"

definition upstream_ok :: HttpResponse where
  "upstream_ok = \<lparr>rs_StatusCode = 200, rs_Header = [(''Content-Type'', ''application/json'')],
     rs_Body = Body body_result\<rparr>"

definition upstream_broken :: HttpResponse where
  "upstream_broken = \<lparr>rs_StatusCode = 200, rs_Header = [(''Content-Type'', ''application/json'')],
     rs_Body = BodyErr ''unexpected EOF''\<rparr>"

definition demo_upstream :: "HttpRequest \<Rightarrow> HttpResponse" where
  "demo_upstream req = upstream_ok"

definition demo_env :: "Signal list \<Rightarrow> Env" where
  "demo_env signals = \<lparr>stall_uuid = ''3f2a9c1e-8b4d-4c6f-9a1b-2d3e4f5a6b7c'', stall_now = 1000,
     stall_failCount = 0, stall_signals = signals,
     call_uuid = ''7d1e5b2a-0c3f-4e8d-b6a9-1f2e3d4c5b6a'', call_now = 1001\<rparr>"

definition next_env :: "Signal list \<Rightarrow> Env" where
  "next_env signals = \<lparr>stall_uuid = ''a4c8e2f6-1b3d-4f5a-8c7e-9d0b1a2c3e4f'', stall_now = 2000,
     stall_failCount = 0, stall_signals = signals,
     call_uuid = ''c9b7a5d3-2e4f-4a6c-9e8b-0d1f2a3b4c5d'', call_now = 2001\<rparr>"

definition demo_renv :: RespEnv where
  "demo_renv = \<lparr>resp_uuid = ''e1f2a3b4-5c6d-4e7f-8a9b-0c1d2e3f4a5b'', resp_now = 1002\<rparr>"


definition broken_upstream :: "HttpRequest \<Rightarrow> HttpResponse" where
  "broken_upstream req = upstream_broken"

definition demo_ops :: "(string \<times> json) Op list" where
  "demo_ops = [OpRequest (demo_env []) post_read, OpResponse demo_renv upstream_ok,
               OpRequest (next_env []) post_read]"

section \<open>The invariant of the task links\<close>

text \<open>
  Every \<^verbatim>\<open>tool_call\<close> event of a task carries the id of its parent, and the
  last-event-per-task map holds, for every task, the id of its most recent \<^verbatim>\<open>tool_call\<close>
  event.
\<close>

definition linked :: "Event list \<Rightarrow> bool" where
  "linked evs = (\<forall>i<length evs. ev_EventType (evs ! i) = ''tool_call'' \<longrightarrow> ev_TaskID (evs ! i) \<noteq> [] \<longrightarrow>
      ev_ParentID (evs ! i) = (case parent_index evs i of None \<Rightarrow> [] | Some j \<Rightarrow> ev_ID (evs ! j)))"

definition map_tracks :: "'c VouchProxy \<Rightarrow> bool" where
  "map_tracks v = (\<forall>t. t \<noteq> [] \<longrightarrow>
      lastEventByTask v t =
        map_option (\<lambda>j. ev_ID (submitted v ! j)) (last_index (call_of t) (submitted v)))"

definition links_inv :: "'c VouchProxy \<Rightarrow> bool" where
  "links_inv v = (linked (submitted v) \<and> map_tracks v)"

section \<open>Frame facts about the handlers\<close>

lemmas demo_defs = demo_deps_def demo_proxy_def demo_policy_def audit_all_def protect_database_def
  redact_auth_def login_policy_def new_proxy_def post_read_def post_drop_def post_login_def
  get_root_def upstream_ok_def upstream_broken_def demo_upstream_def demo_env_def next_env_def demo_renv_def
  body_read_def body_drop_def body_login_def body_result_def mcp_read_def mcp_drop_def mcp_login_def
  mcp_result_def

lemmas code_defs = ServeHTTP_def interceptRequest_def interceptResponse_def extractTaskMetadata_def
  evaluatePolicy_def shouldStallMethod_def handleStall_def submitToolCallEvent_def
  sendErrorResponse_def assert_Check_def Printf_def Submit_def zero_Event_def
  redactSensitiveData_def redactParams_def chan_recv_def handleApprove_def handleReject_def
  stdin_signal_def TrimPrefix_def nl_def handleRekey_def BadGateway_def

lemma deliver_signal_frame:
  "submitted (deliver_signal eid v s) = submitted v \<and>
   lastEventByTask (deliver_signal eid v s) = lastEventByTask v \<and>
   activeTasks (deliver_signal eid v s) = activeTasks v \<and>
   policy (deliver_signal eid v s) = policy v \<and>
   worker_healthy (deliver_signal eid v s) = worker_healthy v"
  by (cases s)
     (simp_all add: handleApprove_def handleReject_def stdin_signal_def Printf_def Let_def
        split: option.split)

lemma deliver_all_frame:
  "submitted (foldl (deliver_signal eid) v sigs) = submitted v \<and>
   lastEventByTask (foldl (deliver_signal eid) v sigs) = lastEventByTask v \<and>
   activeTasks (foldl (deliver_signal eid) v sigs) = activeTasks v \<and>
   policy (foldl (deliver_signal eid) v sigs) = policy v \<and>
   worker_healthy (foldl (deliver_signal eid) v sigs) = worker_healthy v"
  by (induction sigs arbitrary: v) (simp_all add: deliver_signal_frame)

lemma chan_recv_frame:
  "chan_recv v eid = Some (x, v') \<Longrightarrow>
     submitted v' = submitted v \<and> lastEventByTask v' = lastEventByTask v \<and>
     activeTasks v' = activeTasks v \<and> policy v' = policy v \<and>
     worker_healthy v' = worker_healthy v \<and> logged v' = logged v"
  by (auto simp add: chan_recv_def split: option.splits list.splits)

lemma handleStall_shape:
  "\<exists>v' r e. handleStall E v taskID taskState mcpReq (Some rule) = (v', r) \<and>
      (r = StallWaiting \<or> r = StallReturned None \<or> r = StallReturned (Some StallRejected)) \<and>
      submitted v' = submitted v @ [e] \<and>
      ev_EventType e = ''blocked'' \<and> ev_Params e = req_Params mcpReq \<and>
      ev_ID e = take 8 (stall_uuid E) \<and> ev_Method e = req_Method mcpReq \<and>
      ev_TaskID e = taskID \<and> ev_TaskState e = taskState \<and> ev_PolicyID e = rule_ID rule \<and>
      ev_RiskLevel e = RiskLevel rule \<and> ev_WasBlocked e \<and>
      lastEventByTask v' = lastEventByTask v \<and> activeTasks v' = activeTasks v \<and>
      policy v' = policy v \<and> worker_healthy v' = worker_healthy v"
proof -
  define eid where "eid = take 8 (stall_uuid E)"
  define ev where "ev = zero_Event\<lparr>
                 ev_ID := eid,
                 ev_Timestamp := stall_now E,
                 ev_EventType := ''blocked'',
                 ev_Method := req_Method mcpReq,
                 ev_Params := req_Params mcpReq,
                 ev_TaskID := taskID,
                 ev_TaskState := taskState,
                 ev_PolicyID := rule_ID rule,
                 ev_RiskLevel := RiskLevel rule,
                 ev_WasBlocked := True\<rparr>"
  define v1 where "v1 = Printf v (LogStall (req_Method mcpReq) (rule_ID rule) eid)"
  define v2 where "v2 = Submit v1 ev"
  define v3 where "v3 = v2\<lparr>stallSignals := (stallSignals v2)(eid \<mapsto> [])\<rparr>"
  define v4 where "v4 = (if taskID \<noteq> [] then
                       (if stall_failCount E > 0
                        then Printf v3 (LogStallWarning taskID (stall_failCount E)) else v3)
                     else v3)"
  define v5 where "v5 = Printf v4 (LogWaiting eid)"
  define v6 where "v6 = foldl (deliver_signal eid) v5 (stall_signals E)"
  have hs: "handleStall E v taskID taskState mcpReq (Some rule) =
      (case chan_recv v6 eid of
         None \<Rightarrow> (v6, StallWaiting)
       | Some (approved, v7) \<Rightarrow>
           if \<not> approved then (v7, StallReturned (Some StallRejected))
           else (v7, StallReturned None))"
    unfolding handleStall_def Let_def v6_def v5_def v4_def v3_def v2_def v1_def ev_def eid_def
    by (simp only: option.case)
  have f5: "submitted v5 = submitted v @ [ev] \<and> lastEventByTask v5 = lastEventByTask v \<and>
      activeTasks v5 = activeTasks v \<and> policy v5 = policy v \<and> worker_healthy v5 = worker_healthy v"
    by (simp add: v5_def v4_def v3_def v2_def v1_def Printf_def Submit_def)
  have f6: "submitted v6 = submitted v @ [ev] \<and> lastEventByTask v6 = lastEventByTask v \<and>
      activeTasks v6 = activeTasks v \<and> policy v6 = policy v \<and> worker_healthy v6 = worker_healthy v"
    using f5 by (simp add: v6_def deliver_all_frame)
  have fe: "ev_EventType ev = ''blocked'' \<and> ev_Params ev = req_Params mcpReq \<and>
      ev_ID ev = take 8 (stall_uuid E) \<and> ev_Method ev = req_Method mcpReq \<and>
      ev_TaskID ev = taskID \<and> ev_TaskState ev = taskState \<and> ev_PolicyID ev = rule_ID rule \<and>
      ev_RiskLevel ev = RiskLevel rule \<and> ev_WasBlocked ev"
    by (simp add: ev_def eid_def)
  show ?thesis
  proof (cases "chan_recv v6 eid")
    case None
    with hs f6 fe show ?thesis by auto
  next
    case (Some p)
    obtain a v7 where p: "p = (a, v7)" by (cases p)
    from Some p have "chan_recv v6 eid = Some (a, v7)" by simp
    from chan_recv_frame [OF this] f6
    have f7: "submitted v7 = submitted v @ [ev] \<and> lastEventByTask v7 = lastEventByTask v \<and>
      activeTasks v7 = activeTasks v \<and> policy v7 = policy v \<and> worker_healthy v7 = worker_healthy v"
      by simp
    from hs Some p have "handleStall E v taskID taskState mcpReq (Some rule) =
       (v7, if a then StallReturned None else StallReturned (Some StallRejected))"
      by simp
    with f7 fe show ?thesis by (cases a) auto
  qed
qed

lemma submitToolCallEvent_shape:
  "\<exists>e. submitted (submitToolCallEvent E v taskID taskState mcpReq matchedRule) = submitted v @ [e] \<and>
      ev_EventType e = ''tool_call'' \<and> ev_TaskID e = taskID \<and> ev_ID e = take 8 (call_uuid E) \<and>
      ev_ParentID e = (if taskID \<noteq> [] then
                         (case lastEventByTask v taskID of None \<Rightarrow> [] | Some p \<Rightarrow> p) else []) \<and>
      ev_Params e = (case matchedRule of
                       None \<Rightarrow> req_Params mcpReq
                     | Some rule \<Rightarrow> if Redact rule \<noteq> []
                                    then redactParams (req_Params mcpReq) (Redact rule)
                                    else req_Params mcpReq) \<and>
      lastEventByTask (submitToolCallEvent E v taskID taskState mcpReq matchedRule) =
        (if taskID \<noteq> [] then (lastEventByTask v)(taskID \<mapsto> ev_ID e) else lastEventByTask v) \<and>
      policy (submitToolCallEvent E v taskID taskState mcpReq matchedRule) = policy v \<and>
      worker_healthy (submitToolCallEvent E v taskID taskState mcpReq matchedRule) = worker_healthy v"
  by (simp add: submitToolCallEvent_def Let_def Submit_def zero_Event_def redactSensitiveData_def
        split: option.split)

lemma interceptRequest_keeps_request:
  "hr_Body req = Body b \<Longrightarrow> fst (snd (interceptRequest D E v req)) = req"
  by (simp add: interceptRequest_def Let_def split: sum.split prod.split StallResult.split
        option.split)

lemma interceptRequest_stall:
  assumes "hr_Method req = ''POST''" and "hr_Body req = Body b"
    and "extractTaskMetadata D b = Inr (mcpReq, taskID, taskState)"
    and "worker_healthy v"
    and "evaluatePolicy D v (req_Method mcpReq) (req_Params mcpReq) = Inr (True, matchedRule)"
  shows "interceptRequest D E v req =
     (case handleStall E v taskID taskState mcpReq matchedRule of
        (v1, StallWaiting) \<Rightarrow> (v1, req, Waiting)
      | (v1, StallReturned (Some err)) \<Rightarrow>
          (sendErrorResponse v1 403 (- 32000) ''Stall rejected or failed'', req, Returned)
      | (v1, StallReturned None) \<Rightarrow>
          (submitToolCallEvent E v1 taskID taskState mcpReq matchedRule, req, Returned))"
proof -
  have upd: "req\<lparr>hr_Body := Body b\<rparr> = req" using assms(2) by simp
  show ?thesis using assms(1,3,4,5)
    by (simp add: interceptRequest_def Let_def assms(2) upd
          split: prod.split StallResult.split option.split)
qed

lemma scan_patterns_iff:
  "scan_patterns D rule method params ps =
     (list_ex (\<lambda>pattern. MatchPattern D pattern method) ps \<and>
      (case Conditions rule of None \<Rightarrow> True | Some c \<Rightarrow> CheckConditions D c params))"
  by (induction ps) (auto split: option.splits)

lemma scan_rules_find:
  "scan_rules D method params rules =
     (case find (\<lambda>rule. Action rule = ''stall'' \<and> rule_applies D rule method params) rules of
        None \<Rightarrow> (False, None)
      | Some rule \<Rightarrow> (True, Some rule))"
  by (induction rules) (simp_all add: scan_patterns_iff rule_applies_def)

lemma shouldRedact_iff: "shouldRedact k keys = (k \<in> set keys)"
  by (induction keys) auto

lemma redactParams_listed:
  "k \<in> set keys \<Longrightarrow> params k = Some x \<Longrightarrow> redactParams params keys k = Some (JStr ''[REDACTED]'')"
  by (simp add: redactParams_def shouldRedact_iff)

lemma redactParams_unlisted:
  "k \<notin> set keys \<Longrightarrow> redactParams params keys k = params k"
  by (simp add: redactParams_def shouldRedact_iff split: option.split)

lemma redactParams_dom: "dom (redactParams params keys) = dom params"
  by (auto simp add: redactParams_def split: option.splits if_splits)

lemma handleStall_unsignalled:
  "stall_signals E = [] \<Longrightarrow>
     snd (handleStall E v taskID taskState mcpReq (Some rule)) = StallWaiting"
  by (simp add: handleStall_def Let_def chan_recv_def Printf_def Submit_def)

section \<open>What the reverse proxy does with the hooks' results\<close>

text \<open>
  The director cannot stop a request: whenever \<^verbatim>\<open>interceptRequest\<close> returns, the request
  goes upstream as it came in, and an upstream response whose body can be read reaches
  the client as it is. In particular every request that an unhealthy proxy receives is
  forwarded, and so is a request whose stall was rejected.
\<close>

lemma interceptResponse_readable:
  "rs_Body resp = Body b \<Longrightarrow> snd (interceptResponse D R v resp) = (resp, None)"
  by (simp add: interceptResponse_def Let_def split: option.split)

lemma unhealthy_request_returns:
  "\<not> worker_healthy v \<Longrightarrow> snd (snd (interceptRequest D E v req)) = Returned"
  by (simp add: interceptRequest_def Let_def split: sum.split prod.split)

lemma returned_request_goes_upstream:
  "hr_Body req = Body b \<Longrightarrow> snd (snd (interceptRequest D E v req)) = Returned \<Longrightarrow>
     fst (snd (ServeHTTP D E R upstream v req)) = [req]"
  using interceptRequest_keeps_request [of req b D E v]
  by (cases "interceptRequest D E v req")
     (simp add: ServeHTTP_def split: prod.split option.split)

lemma unhealthy_request_goes_upstream:
  "\<not> worker_healthy v \<Longrightarrow> hr_Body req = Body b \<Longrightarrow>
     fst (snd (ServeHTTP D E R upstream v req)) = [req]"
  by (simp add: returned_request_goes_upstream unhealthy_request_returns)

lemma client_receives_upstream_response:
  "hr_Body req = Body b \<Longrightarrow> snd (snd (interceptRequest D E v req)) = Returned \<Longrightarrow>
   rs_Body (upstream req) = Body rb \<Longrightarrow>
     snd (snd (ServeHTTP D E R upstream v req)) = Some (upstream req)"
proof -
  assume b: "hr_Body req = Body b" and r: "snd (snd (interceptRequest D E v req)) = Returned"
    and rb: "rs_Body (upstream req) = Body rb"
  obtain v1 where i: "interceptRequest D E v req = (v1, req, Returned)"
    using interceptRequest_keeps_request [OF b, of D E v] r
    by (cases "interceptRequest D E v req") simp
  have "snd (interceptResponse D R v1 (upstream req)) = (upstream req, None)"
    using rb by (rule interceptResponse_readable)
  then show ?thesis using i
    by (cases "interceptResponse D R v1 (upstream req)") (simp add: ServeHTTP_def)
qed

lemma rejected_request_goes_upstream:
  "snd (ServeHTTP demo_deps (demo_env [ApiReject ''/api/reject/3f2a9c1e'']) demo_renv
          demo_upstream demo_proxy post_drop) = ([post_drop], Some upstream_ok)"
  by (simp add: demo_defs code_defs Let_def)

section \<open>The registry of stalls only grows\<close>

text \<open>
  No step of a run removes an entry from \<^verbatim>\<open>stallSignals\<close>, so a signal for an event id
  that was registered once is never answered 404.
\<close>

lemma deliver_signal_registry:
  "dom (stallSignals v) \<subseteq> dom (stallSignals (deliver_signal eid v s))"
  by (cases s)
     (auto simp add: handleApprove_def handleReject_def stdin_signal_def Printf_def Let_def
        split: option.splits if_splits)

lemma deliver_all_registry:
  "dom (stallSignals v) \<subseteq> dom (stallSignals (foldl (deliver_signal eid) v sigs))"
proof (induction sigs arbitrary: v)
  case Nil
  show ?case by simp
next
  case (Cons s sigs)
  have "dom (stallSignals v) \<subseteq> dom (stallSignals (deliver_signal eid v s))"
    by (rule deliver_signal_registry)
  also have "\<dots> \<subseteq> dom (stallSignals (foldl (deliver_signal eid) (deliver_signal eid v s) sigs))"
    by (rule Cons.IH)
  finally show ?case by simp
qed

lemma chan_recv_registry:
  "chan_recv v eid = Some (x, v') \<Longrightarrow> dom (stallSignals v) \<subseteq> dom (stallSignals v')"
  by (auto simp add: chan_recv_def split: option.splits list.splits)

lemma handleStall_registry:
  assumes "handleStall E v taskID taskState mcpReq matchedRule = (v1, res)"
  shows "dom (stallSignals v) \<subseteq> dom (stallSignals v1)"
proof (cases matchedRule)
  case None
  with assms show ?thesis by (simp add: handleStall_def)
next
  case (Some rule)
  define eid where "eid = take 8 (stall_uuid E)"
  define ev where "ev = zero_Event\<lparr>
                 ev_ID := eid,
                 ev_Timestamp := stall_now E,
                 ev_EventType := ''blocked'',
                 ev_Method := req_Method mcpReq,
                 ev_Params := req_Params mcpReq,
                 ev_TaskID := taskID,
                 ev_TaskState := taskState,
                 ev_PolicyID := rule_ID rule,
                 ev_RiskLevel := RiskLevel rule,
                 ev_WasBlocked := True\<rparr>"
  define v1' where "v1' = Printf v (LogStall (req_Method mcpReq) (rule_ID rule) eid)"
  define v2 where "v2 = Submit v1' ev"
  define v3 where "v3 = v2\<lparr>stallSignals := (stallSignals v2)(eid \<mapsto> [])\<rparr>"
  define v4 where "v4 = (if taskID \<noteq> [] then
                       (if stall_failCount E > 0
                        then Printf v3 (LogStallWarning taskID (stall_failCount E)) else v3)
                     else v3)"
  define v5 where "v5 = Printf v4 (LogWaiting eid)"
  define v6 where "v6 = foldl (deliver_signal eid) v5 (stall_signals E)"
  have hs: "handleStall E v taskID taskState mcpReq (Some rule) =
      (case chan_recv v6 eid of
         None \<Rightarrow> (v6, StallWaiting)
       | Some (approved, v7) \<Rightarrow>
           if \<not> approved then (v7, StallReturned (Some StallRejected))
           else (v7, StallReturned None))"
    unfolding handleStall_def Let_def v6_def v5_def v4_def v3_def v2_def v1'_def ev_def eid_def
    by (simp only: option.case)
  have d5: "dom (stallSignals v) \<subseteq> dom (stallSignals v5)"
    by (auto simp add: v5_def v4_def v3_def v2_def v1'_def Printf_def Submit_def)
  have d6: "dom (stallSignals v) \<subseteq> dom (stallSignals v6)"
    using d5 deliver_all_registry [of v5 eid "stall_signals E"] by (simp add: v6_def)
  show ?thesis
  proof (cases "chan_recv v6 eid")
    case None
    with hs assms Some d6 show ?thesis by simp
  next
    case (Some p)
    obtain a v7 where p: "p = (a, v7)" by (cases p)
    with Some have "chan_recv v6 eid = Some (a, v7)" by simp
    from chan_recv_registry [OF this] d6 have "dom (stallSignals v) \<subseteq> dom (stallSignals v7)"
      by blast
    moreover from hs Some p assms \<open>matchedRule = Some rule\<close> have "v1 = v7"
      by (simp split: if_splits)
    ultimately show ?thesis by simp
  qed
qed

lemma step_registry: "dom (stallSignals v) \<subseteq> dom (stallSignals (step D v op))"
proof (cases op)
  case (OpRequest E req)
  have stall: "\<And>taskID taskState mcpReq matchedRule v1 res.
      handleStall E v taskID taskState mcpReq matchedRule = (v1, res) \<Longrightarrow>
      dom (stallSignals v) \<subseteq> dom (stallSignals v1)"
    by (rule handleStall_registry)
  have sub: "\<And>v1 taskID taskState mcpReq matchedRule.
      stallSignals (submitToolCallEvent E v1 taskID taskState mcpReq matchedRule) = stallSignals v1"
    by (simp add: submitToolCallEvent_def Let_def Submit_def)
  show ?thesis
    using OpRequest
    by (simp add: interceptRequest_def Let_def sendErrorResponse_def Printf_def sub stall
          split: sum.split prod.split StallResult.split option.split)
next
  case (OpResume E taskID taskState mcpReq matchedRule)
  have sub: "\<And>v1. stallSignals (submitToolCallEvent E v1 taskID taskState mcpReq matchedRule)
      = stallSignals v1"
    by (simp add: submitToolCallEvent_def Let_def Submit_def)
  show ?thesis
  proof (cases "chan_recv v (take 8 (stall_uuid E))")
    case None
    with OpResume show ?thesis by (simp add: resume_stall_def)
  next
    case (Some p)
    obtain a v1 where p: "p = (a, v1)" by (cases p)
    with Some have "chan_recv v (take 8 (stall_uuid E)) = Some (a, v1)" by simp
    from chan_recv_registry [OF this] Some p OpResume sub show ?thesis
      by (simp add: resume_stall_def sendErrorResponse_def Printf_def)
  qed
next
  case (OpResponse R resp)
  then show ?thesis
    by (simp add: interceptResponse_def Let_def Printf_def Submit_def
          split: sum.split option.split json.split)
next
  case (OpApprove path)
  then show ?thesis
    by (auto simp add: handleApprove_def Printf_def Let_def split: option.splits if_splits)
next
  case (OpReject path)
  then show ?thesis
    by (auto simp add: handleReject_def Printf_def Let_def split: option.splits if_splits)
next
  case (OpRekey rotated)
  then show ?thesis by (simp add: handleRekey_def Printf_def split: sum.split prod.split)
next
  case (OpHealth h)
  then show ?thesis by simp
qed

lemma run_registry: "dom (stallSignals v) \<subseteq> dom (stallSignals (run D v ops))"
  unfolding run_def
proof (induction ops arbitrary: v)
  case Nil
  show ?case by simp
next
  case (Cons op ops)
  have "dom (stallSignals v) \<subseteq> dom (stallSignals (step D v op))" by (rule step_registry)
  also have "\<dots> \<subseteq> dom (stallSignals (foldl (step D) (step D v op) ops))" by (rule Cons.IH)
  finally show ?case by simp
qed

lemma registered_signal_is_never_unknown:
  assumes "stallSignals v eid = Some ch" and "eid \<noteq> []"
  shows "fst (snd (handleApprove (run D v ops) (''/api/approve/'' @ eid))) \<noteq> 404 \<and>
         fst (snd (handleReject (run D v ops) (''/api/reject/'' @ eid))) \<noteq> 404"
proof -
  from assms(1) run_registry [of v D ops] obtain ch' where
    "stallSignals (run D v ops) eid = Some ch'" by blast
  with assms(2) show ?thesis
    by (simp add: handleApprove_def handleReject_def TrimPrefix_def Let_def)
qed

section \<open>Parameters committed with and without a stall\<close>

text \<open>
  The policy evaluation returns a rule only together with the decision to stall. A call
  that is not stalled is committed with its parameters as they came; a call whose stall
  was approved is committed with the redact list of its rule applied.
\<close>

lemma unstalled_has_no_rule:
  "evaluatePolicy D v method params = Inr (False, matchedRule) \<Longrightarrow> matchedRule = None"
  by (auto simp add: evaluatePolicy_def shouldStallMethod_def assert_Check_def scan_rules_find
        split: option.splits if_splits)

lemma unstalled_call_is_unredacted:
  assumes "hr_Method req = ''POST''" and "hr_Body req = Body b"
    and "extractTaskMetadata D b = Inr (mcpReq, taskID, taskState)"
    and "worker_healthy v"
    and "evaluatePolicy D v (req_Method mcpReq) (req_Params mcpReq) = Inr (False, matchedRule)"
  shows "\<exists>e. submitted (fst (interceptRequest D E v req)) = submitted v @ [e] \<and>
             ev_EventType e = ''tool_call'' \<and> ev_Params e = req_Params mcpReq"
proof -
  have none: "matchedRule = None" using assms(5) by (rule unstalled_has_no_rule)
  have "interceptRequest D E v req =
      (submitToolCallEvent E v taskID taskState mcpReq None, req\<lparr>hr_Body := Body b\<rparr>, Returned)"
    using assms none by (simp add: interceptRequest_def Let_def)
  with submitToolCallEvent_shape [of E v taskID taskState mcpReq None]
  show ?thesis by auto
qed

lemma approved_stall_is_redacted:
  assumes "hr_Method req = ''POST''" and "hr_Body req = Body b"
    and "extractTaskMetadata D b = Inr (mcpReq, taskID, taskState)"
    and "worker_healthy v"
    and "evaluatePolicy D v (req_Method mcpReq) (req_Params mcpReq) = Inr (True, Some rule)"
    and "snd (handleStall E v taskID taskState mcpReq (Some rule)) = StallReturned None"
    and "Redact rule \<noteq> []"
  shows "ev_EventType (last (submitted (fst (interceptRequest D E v req)))) = ''tool_call'' \<and>
         ev_Params (last (submitted (fst (interceptRequest D E v req)))) =
           redactParams (req_Params mcpReq) (Redact rule)"
proof -
  obtain v1 where hs: "handleStall E v taskID taskState mcpReq (Some rule) = (v1, StallReturned None)"
    using assms(6) by (cases "handleStall E v taskID taskState mcpReq (Some rule)") simp
  have "interceptRequest D E v req =
      (submitToolCallEvent E v1 taskID taskState mcpReq (Some rule), req, Returned)"
    using hs by (simp add: interceptRequest_stall [OF assms(1-5)])
  with submitToolCallEvent_shape [of E v1 taskID taskState mcpReq "Some rule"] assms(7)
  show ?thesis by auto
qed

section \<open>Facts about the task links\<close>

lemma last_index_snoc:
  "last_index P (xs @ [x]) = (if P x then Some (length xs) else last_index P xs)"
  by (induction xs) (auto split: option.splits)

lemma last_index_Some:
  "last_index P xs = Some j \<Longrightarrow> j < length xs \<and> P (xs ! j)"
  by (induction xs arbitrary: j rule: rev_induct)
     (auto simp add: last_index_snoc nth_append split: if_splits)

lemma last_index_latest:
  "last_index P xs = Some j \<Longrightarrow> j < k \<Longrightarrow> k < length xs \<Longrightarrow> \<not> P (xs ! k)"
proof (induction xs arbitrary: j k rule: rev_induct)
  case Nil
  then show ?case by simp
next
  case (snoc x xs)
  show ?case
  proof (cases "P x")
    case True
    with snoc.prems show ?thesis by (simp add: last_index_snoc)
  next
    case False
    with snoc.prems have j: "last_index P xs = Some j" by (simp add: last_index_snoc)
    show ?thesis
    proof (cases "k < length xs")
      case True
      with snoc.IH [OF j snoc.prems(2)] show ?thesis by (simp add: nth_append)
    next
      case False
      with snoc.prems(3) have "k = length xs" by simp
      with \<open>\<not> P x\<close> show ?thesis by simp
    qed
  qed
qed

lemma parent_index_old:
  "i < length evs \<Longrightarrow> parent_index (evs @ ys) i = parent_index evs i"
  by (simp add: parent_index_def nth_append)

lemma parent_index_new:
  "parent_index (evs @ [e]) (length evs) = last_index (call_of (ev_TaskID e)) evs"
  by (simp add: parent_index_def)

lemma linked_snoc_other:
  assumes "linked evs" and "ev_EventType e \<noteq> ''tool_call''"
  shows "linked (evs @ [e])"
  unfolding linked_def
proof (intro allI impI)
  fix i
  assume i: "i < length (evs @ [e])"
    and c: "ev_EventType ((evs @ [e]) ! i) = ''tool_call''"
    and t: "ev_TaskID ((evs @ [e]) ! i) \<noteq> []"
  from c assms(2) i have lt: "i < length evs" by (cases "i = length evs") auto
  have same: "\<And>j. parent_index evs i = Some j \<Longrightarrow> (evs @ [e]) ! j = evs ! j"
  proof -
    fix j assume "parent_index evs i = Some j"
    then have "j < length (take i evs)" unfolding parent_index_def by (rule last_index_Some [THEN conjunct1])
    with lt show "(evs @ [e]) ! j = evs ! j" by (simp add: nth_append)
  qed
  from assms(1) lt c t have "ev_ParentID (evs ! i) =
      (case parent_index evs i of None \<Rightarrow> [] | Some j \<Rightarrow> ev_ID (evs ! j))"
    by (simp add: linked_def nth_append)
  with lt same show "ev_ParentID ((evs @ [e]) ! i) =
      (case parent_index (evs @ [e]) i of None \<Rightarrow> [] | Some j \<Rightarrow> ev_ID ((evs @ [e]) ! j))"
    by (simp add: parent_index_old nth_append split: option.split)
qed

lemma linked_snoc_call:
  assumes "linked evs"
    and "ev_TaskID e \<noteq> [] \<Longrightarrow> ev_ParentID e =
      (case last_index (call_of (ev_TaskID e)) evs of None \<Rightarrow> [] | Some j \<Rightarrow> ev_ID (evs ! j))"
  shows "linked (evs @ [e])"
  unfolding linked_def
proof (intro allI impI)
  fix i
  assume i: "i < length (evs @ [e])"
    and c: "ev_EventType ((evs @ [e]) ! i) = ''tool_call''"
    and t: "ev_TaskID ((evs @ [e]) ! i) \<noteq> []"
  show "ev_ParentID ((evs @ [e]) ! i) =
      (case parent_index (evs @ [e]) i of None \<Rightarrow> [] | Some j \<Rightarrow> ev_ID ((evs @ [e]) ! j))"
  proof (cases "i < length evs")
    case True
    have same: "\<And>j. parent_index evs i = Some j \<Longrightarrow> (evs @ [e]) ! j = evs ! j"
    proof -
      fix j assume "parent_index evs i = Some j"
      then have "j < length (take i evs)"
        unfolding parent_index_def by (rule last_index_Some [THEN conjunct1])
      with True show "(evs @ [e]) ! j = evs ! j" by (simp add: nth_append)
    qed
    from assms(1) True c t have "ev_ParentID (evs ! i) =
        (case parent_index evs i of None \<Rightarrow> [] | Some j \<Rightarrow> ev_ID (evs ! j))"
      by (simp add: linked_def nth_append)
    with True same show ?thesis
      by (simp add: parent_index_old nth_append split: option.split)
  next
    case False
    with i have i': "i = length evs" by simp
    with t have te: "ev_TaskID e \<noteq> []" by simp
    have same: "\<And>j. last_index (call_of (ev_TaskID e)) evs = Some j \<Longrightarrow> (evs @ [e]) ! j = evs ! j"
    proof -
      fix j assume "last_index (call_of (ev_TaskID e)) evs = Some j"
      then have "j < length evs" by (rule last_index_Some [THEN conjunct1])
      then show "(evs @ [e]) ! j = evs ! j" by (simp add: nth_append)
    qed
    from assms(2) [OF te] same i' show ?thesis
      by (simp add: parent_index_new split: option.split)
  qed
qed

lemma links_inv_frame:
  assumes "links_inv v" and "submitted v' = submitted v"
    and "lastEventByTask v' = lastEventByTask v"
  shows "links_inv v'"
  using assms by (simp add: links_inv_def map_tracks_def)

lemma links_inv_other:
  assumes "links_inv v" and "submitted v' = submitted v @ [e]"
    and "ev_EventType e \<noteq> ''tool_call''" and "lastEventByTask v' = lastEventByTask v"
  shows "links_inv v'"
proof -
  have l: "linked (submitted v')"
    using assms(1,2,3) by (simp add: links_inv_def linked_snoc_other)
  have m: "map_tracks v'"
    unfolding map_tracks_def
  proof (intro allI impI)
    fix t :: string
    assume t: "t \<noteq> []"
    have nc: "\<not> call_of t e" using assms(3) by (simp add: call_of_def)
    have "map_option (\<lambda>j. ev_ID ((submitted v @ [e]) ! j)) (last_index (call_of t) (submitted v))
        = map_option (\<lambda>j. ev_ID (submitted v ! j)) (last_index (call_of t) (submitted v))"
      by (cases "last_index (call_of t) (submitted v)")
         (auto dest: last_index_Some simp add: nth_append)
    with assms(1,2,4) t nc show "lastEventByTask v' t =
        map_option (\<lambda>j. ev_ID (submitted v' ! j)) (last_index (call_of t) (submitted v'))"
      by (simp add: links_inv_def map_tracks_def last_index_snoc)
  qed
  from l m show ?thesis by (simp add: links_inv_def)
qed

lemma links_inv_call:
  assumes "links_inv v" and "submitted v' = submitted v @ [c]"
    and "ev_EventType c = ''tool_call''"
    and "ev_ParentID c = (if ev_TaskID c \<noteq> [] then
            (case lastEventByTask v (ev_TaskID c) of None \<Rightarrow> [] | Some p \<Rightarrow> p) else [])"
    and "lastEventByTask v' =
           (if ev_TaskID c \<noteq> [] then (lastEventByTask v)(ev_TaskID c \<mapsto> ev_ID c)
            else lastEventByTask v)"
  shows "links_inv v'"
proof -
  have "linked (submitted v @ [c])"
  proof (rule linked_snoc_call)
    show "linked (submitted v)" using assms(1) by (simp add: links_inv_def)
  next
    assume t: "ev_TaskID c \<noteq> []"
    with assms(1) have "lastEventByTask v (ev_TaskID c) =
        map_option (\<lambda>j. ev_ID (submitted v ! j)) (last_index (call_of (ev_TaskID c)) (submitted v))"
      by (simp add: links_inv_def map_tracks_def)
    with assms(4) t show "ev_ParentID c =
        (case last_index (call_of (ev_TaskID c)) (submitted v) of
           None \<Rightarrow> [] | Some j \<Rightarrow> ev_ID (submitted v ! j))"
      by (simp split: option.split)
  qed
  then have l: "linked (submitted v')" using assms(2) by simp
  have m: "map_tracks v'"
    unfolding map_tracks_def
  proof (intro allI impI)
    fix t :: string
    assume t: "t \<noteq> []"
    have old: "map_option (\<lambda>j. ev_ID ((submitted v @ [c]) ! j)) (last_index (call_of t) (submitted v))
        = map_option (\<lambda>j. ev_ID (submitted v ! j)) (last_index (call_of t) (submitted v))"
      by (cases "last_index (call_of t) (submitted v)")
         (auto dest: last_index_Some simp add: nth_append)
    have mt: "lastEventByTask v t =
        map_option (\<lambda>j. ev_ID (submitted v ! j)) (last_index (call_of t) (submitted v))"
      using assms(1) t by (simp add: links_inv_def map_tracks_def)
    show "lastEventByTask v' t =
        map_option (\<lambda>j. ev_ID (submitted v' ! j)) (last_index (call_of t) (submitted v'))"
    proof (cases "ev_TaskID c = t")
      case True
      with t assms(2,3,5) show ?thesis by (simp add: last_index_snoc call_of_def)
    next
      case False
      then have "\<not> call_of t c" by (simp add: call_of_def)
      with False assms(2,5) old mt show ?thesis by (simp add: last_index_snoc)
    qed
  qed
  from l m show ?thesis by (simp add: links_inv_def)
qed


lemma links_inv_Printf: "links_inv v \<Longrightarrow> links_inv (Printf v line)"
  by (rule links_inv_frame) (simp_all add: Printf_def)

lemma links_inv_sendErrorResponse:
  "links_inv v \<Longrightarrow> links_inv (sendErrorResponse v statusCode code message)"
  by (rule links_inv_frame) (simp_all add: sendErrorResponse_def Printf_def)

lemma links_inv_submitToolCallEvent:
  assumes "links_inv v"
  shows "links_inv (submitToolCallEvent E v taskID taskState mcpReq matchedRule)"
proof -
  obtain c where
    "submitted (submitToolCallEvent E v taskID taskState mcpReq matchedRule) = submitted v @ [c]"
    "ev_EventType c = ''tool_call''" "ev_TaskID c = taskID"
    "ev_ParentID c = (if taskID \<noteq> [] then
        (case lastEventByTask v taskID of None \<Rightarrow> [] | Some p \<Rightarrow> p) else [])"
    "lastEventByTask (submitToolCallEvent E v taskID taskState mcpReq matchedRule) =
        (if taskID \<noteq> [] then (lastEventByTask v)(taskID \<mapsto> ev_ID c) else lastEventByTask v)"
    using submitToolCallEvent_shape [of E v taskID taskState mcpReq matchedRule] by blast
  with assms show ?thesis by (rule_tac c = c in links_inv_call [of v]) simp_all
qed

lemma links_inv_handleStall:
  assumes "links_inv v" and "handleStall E v taskID taskState mcpReq matchedRule = (v1, res)"
  shows "links_inv v1"
proof (cases matchedRule)
  case None
  with assms show ?thesis by (simp add: handleStall_def)
next
  case (Some rule)
  obtain v' r e where "handleStall E v taskID taskState mcpReq (Some rule) = (v', r)"
    "submitted v' = submitted v @ [e]" "ev_EventType e = ''blocked''"
    "lastEventByTask v' = lastEventByTask v"
    using handleStall_shape [of E v taskID taskState mcpReq rule] by blast
  with assms Some show ?thesis by (rule_tac e = e in links_inv_other [of v v1]) simp_all
qed

lemma links_inv_interceptRequest:
  assumes "links_inv v"
  shows "links_inv (fst (interceptRequest D E v req))"
proof -
  have stall: "\<And>taskID taskState mcpReq matchedRule v1 res.
      handleStall E v taskID taskState mcpReq matchedRule = (v1, res) \<Longrightarrow> links_inv v1"
    using assms by (rule links_inv_handleStall)
  show ?thesis
    using assms
    by (simp add: interceptRequest_def Let_def links_inv_Printf links_inv_sendErrorResponse
          links_inv_submitToolCallEvent stall
          split: sum.split prod.split StallResult.split option.split)
qed

lemma interceptResponse_shape:
  "lastEventByTask (fst (interceptResponse D R v resp)) = lastEventByTask v \<and>
   (submitted (fst (interceptResponse D R v resp)) = submitted v \<or>
    (\<exists>e. submitted (fst (interceptResponse D R v resp)) = submitted v @ [e] \<and>
         ev_EventType e = ''tool_response''))"
  by (simp add: interceptResponse_def Let_def Printf_def Submit_def zero_Event_def
        split: sum.split option.split json.split)

lemma links_inv_interceptResponse:
  assumes "links_inv v"
  shows "links_inv (fst (interceptResponse D R v resp))"
proof -
  from interceptResponse_shape [of D R v resp]
  consider "submitted (fst (interceptResponse D R v resp)) = submitted v"
    | e where "submitted (fst (interceptResponse D R v resp)) = submitted v @ [e]"
        "ev_EventType e = ''tool_response''"
    by blast
  then show ?thesis
  proof cases
    case 1
    with assms interceptResponse_shape [of D R v resp] show ?thesis
      by (rule_tac links_inv_frame [of v]) simp_all
  next
    case 2
    with assms interceptResponse_shape [of D R v resp] show ?thesis
      by (rule_tac e = e in links_inv_other [of v]) simp_all
  qed
qed

lemma links_inv_step:
  assumes "links_inv v"
  shows "links_inv (step D v op)"
proof (cases op)
  case (OpRequest E req)
  with assms show ?thesis by (simp add: links_inv_interceptRequest)
next
  case (OpResume E taskID taskState mcpReq matchedRule)
  show ?thesis
  proof (cases "chan_recv v (take 8 (stall_uuid E))")
    case None
    with OpResume assms show ?thesis by (simp add: resume_stall_def)
  next
    case (Some p)
    obtain a v1 where p: "p = (a, v1)" by (cases p)
    with Some have "chan_recv v (take 8 (stall_uuid E)) = Some (a, v1)" by simp
    from chan_recv_frame [OF this] assms have "links_inv v1"
      by (simp add: links_inv_frame [of v])
    with Some p OpResume show ?thesis
      by (simp add: resume_stall_def links_inv_sendErrorResponse links_inv_submitToolCallEvent)
  qed
next
  case (OpResponse R resp)
  with assms show ?thesis by (simp add: links_inv_interceptResponse)
next
  case (OpApprove path)
  have "submitted (fst (handleApprove v path)) = submitted v \<and>
        lastEventByTask (fst (handleApprove v path)) = lastEventByTask v"
    by (simp add: handleApprove_def Printf_def Let_def split: option.split)
  with assms OpApprove show ?thesis by (simp add: links_inv_frame [of v])
next
  case (OpReject path)
  have "submitted (fst (handleReject v path)) = submitted v \<and>
        lastEventByTask (fst (handleReject v path)) = lastEventByTask v"
    by (simp add: handleReject_def Printf_def Let_def split: option.split)
  with assms OpReject show ?thesis by (simp add: links_inv_frame [of v])
next
  case (OpRekey rotated)
  have "submitted (fst (handleRekey rotated v)) = submitted v \<and>
        lastEventByTask (fst (handleRekey rotated v)) = lastEventByTask v"
    by (simp add: handleRekey_def Printf_def split: sum.split prod.split)
  with assms OpRekey show ?thesis by (simp add: links_inv_frame [of v])
next
  case (OpHealth h)
  with assms show ?thesis by (simp add: links_inv_frame [of v])
qed

lemma links_inv_run: "links_inv v \<Longrightarrow> links_inv (run D v ops)"
  unfolding run_def by (induction ops arbitrary: v) (simp_all add: links_inv_step)

lemma links_inv_new_proxy: "links_inv (new_proxy pol)"
  by (simp add: links_inv_def linked_def map_tracks_def new_proxy_def)

lemma parent_index_less: "parent_index evs i = Some j \<Longrightarrow> j < i"
proof -
  assume "parent_index evs i = Some j"
  then have "j < length (take i evs)"
    unfolding parent_index_def by (rule last_index_Some [THEN conjunct1])
  then show "j < i" by simp
qed

lemma parent_links_acyclic: "acyclic {(i, j). parent_index evs i = Some j}"
proof -
  have "{(i, j). parent_index evs i = Some j} \<subseteq> {(j, i). j < i}\<inverse>"
    by (auto dest: parent_index_less)
  moreover have "acyclic ({(j::nat, i). j < i}\<inverse>)"
    using wf_acyclic [OF wf_less] by (simp only: acyclic_converse)
  ultimately show ?thesis by (rule acyclic_subset [rotated])
qed

section \<open>Health gating\<close>

text \<open>
  Claim C1. While the worker is unhealthy every request should be rejected with HTTP 503
  and the JSON-RPC error "Ledger Storage Failure", and not be forwarded. The code does
  not do this. At a well-formed POST request received by an unhealthy proxy,
  \<^verbatim>\<open>sendErrorResponse\<close> only logs the error object: the request is sent upstream as it
  came in, and the client receives the upstream's answer with status 200. Nothing is
  submitted to the ledger. (For every request with a readable body that an unhealthy
  proxy receives, the request goes upstream: \<open>unhealthy_request_goes_upstream\<close>.)
\<close>

theorem unhealthy_request_is_forwarded:
  "snd (ServeHTTP demo_deps (demo_env []) demo_renv demo_upstream
          (demo_proxy\<lparr>worker_healthy := False\<rparr>) post_read)
     = ([post_read], Some upstream_ok) \<and>
   rs_StatusCode upstream_ok = 200 \<and>
   logged (fst (ServeHTTP demo_deps (demo_env []) demo_renv demo_upstream
          (demo_proxy\<lparr>worker_healthy := False\<rparr>) post_read))
     = [LogSecurity ''Ledger Storage Failure''
          \<lparr>resp_JSONRPC = ''2.0'', resp_ID = JNull, resp_Result = Map.empty,
            resp_Error = [''code'' \<mapsto> JNum (- 32000),
                          ''message'' \<mapsto> JStr ''Ledger Storage Failure'']\<rparr>,
        LogDropResponse] \<and>
   submitted (fst (ServeHTTP demo_deps (demo_env []) demo_renv demo_upstream
          (demo_proxy\<lparr>worker_healthy := False\<rparr>) post_read)) = []"
  by (simp add: demo_defs code_defs Let_def)

section \<open>The guard on method and body size\<close>

text \<open>
  Claim C7, as stated: a request that is not a POST, or whose body exceeds 5 MiB, is
  rejected with HTTP 400 and a JSON-RPC error of code -32000. It fails for a GET request:
  the interceptor returns at once, builds no error at all, and the request goes upstream.
\<close>

theorem non_post_passes_unchecked:
  "snd (ServeHTTP demo_deps (demo_env []) demo_renv demo_upstream demo_proxy get_root)
     = ([get_root], Some upstream_ok) \<and>
   logged (fst (ServeHTTP demo_deps (demo_env []) demo_renv demo_upstream demo_proxy get_root))
     = []"
  by (simp add: demo_defs code_defs Let_def)

text \<open>
  Claim C7, amended. A request whose method is not POST is not inspected: the interceptor
  returns with the state and the request unchanged. For a POST request whose body is read
  and is at least 5 MiB long (so whenever it exceeds 5 MiB) the interceptor builds the
  JSON-RPC error with code -32000 and message "request body too large" and logs it; it
  submits no event and changes nothing else.
\<close>

theorem guard_method_and_size:
  "(hr_Method req \<noteq> ''POST'' \<longrightarrow> interceptRequest D E v req = (v, req, Returned)) \<and>
   (hr_Method req = ''POST'' \<longrightarrow> hr_Body req = Body b \<longrightarrow> 5 * 1024 * 1024 \<le> length b \<longrightarrow>
      interceptRequest D E v req =
        (v\<lparr>logged := logged v @
              [LogSecurity ''request body too large''
                 \<lparr>resp_JSONRPC = ''2.0'', resp_ID = JNull, resp_Result = Map.empty,
                   resp_Error = [''code'' \<mapsto> JNum (- 32000),
                                 ''message'' \<mapsto> JStr ''request body too large'']\<rparr>]\<rparr>,
         req, Returned))"
  by (auto simp add: interceptRequest_def extractTaskMetadata_def sendErrorResponse_def
        assert_Check_def Printf_def Let_def)

theorem guard_method_and_size_witness:
  "hr_Method get_root \<noteq> ''POST'' \<and>
   interceptRequest demo_deps (demo_env []) demo_proxy get_root = (demo_proxy, get_root, Returned) \<and>
   hr_Method post_huge = ''POST'' \<and>
   5 * 1024 * 1024 \<le> length (replicate (5 * 1024 * 1024 + 1) CHR ''a'') \<and>
   logged (fst (interceptRequest demo_deps (demo_env []) demo_proxy post_huge)) =
     [LogSecurity ''request body too large''
        \<lparr>resp_JSONRPC = ''2.0'', resp_ID = JNull, resp_Result = Map.empty,
          resp_Error = [''code'' \<mapsto> JNum (- 32000),
                        ''message'' \<mapsto> JStr ''request body too large'']\<rparr>] \<and>
   submitted (fst (interceptRequest demo_deps (demo_env []) demo_proxy post_huge)) = []"
  using guard_method_and_size
      [of get_root demo_deps "demo_env []" demo_proxy "replicate (5 * 1024 * 1024 + 1) CHR ''a''"]
    guard_method_and_size
      [of post_huge demo_deps "demo_env []" demo_proxy "replicate (5 * 1024 * 1024 + 1) CHR ''a''"]
  by (simp add: get_root_def post_huge_def demo_proxy_def new_proxy_def)

section \<open>The policy decision\<close>

text \<open>
  Claim C2, as stated: the decision is the first rule in declaration order that applies,
  whatever its action. It fails for a policy that lists an allow rule for every method
  before a stall rule: the first rule that applies to \<^verbatim>\<open>db.drop_root\<close> is the allow rule,
  and the code returns the stall rule behind it.
\<close>

theorem first_applicable_rule_is_skipped:
  "spec_decision demo_deps demo_policy ''db.drop_root'' (req_Params mcp_drop) = Some audit_all \<and>
   Action audit_all = ''allow'' \<and>
   evaluatePolicy demo_deps demo_proxy ''db.drop_root'' (req_Params mcp_drop)
     = Inr (True, Some protect_database)"
  by (simp add: spec_decision_def rule_applies_def demo_defs code_defs)

text \<open>
  Claim C2, amended. For every non-empty method, the decision is the first rule in
  declaration order whose action is \<^verbatim>\<open>stall\<close> and that applies (one of its patterns matches
  the method and its conditions, if any, hold over the parameters): the call is stalled
  under that rule. Rules with any other action are skipped. When no stall rule applies
  the call is not stalled and no rule is returned.
\<close>

theorem decision_is_first_stall_rule:
  "method \<noteq> [] \<Longrightarrow> policy v = Some cfg \<Longrightarrow>
   evaluatePolicy D v method params =
     Inr (case find (\<lambda>rule. Action rule = ''stall'' \<and> rule_applies D rule method params)
                 (Policies cfg) of
            None \<Rightarrow> (False, None)
          | Some rule \<Rightarrow> (True, Some rule))"
  by (simp add: evaluatePolicy_def shouldStallMethod_def assert_Check_def scan_rules_find)

theorem decision_is_first_stall_rule_witness:
  "''db.drop_root'' \<noteq> [] \<and> policy demo_proxy = Some demo_policy \<and>
   find (\<lambda>rule. Action rule = ''stall'' \<and>
           rule_applies demo_deps rule ''db.drop_root'' (req_Params mcp_drop))
     (Policies demo_policy) = Some protect_database \<and>
   evaluatePolicy demo_deps demo_proxy ''db.drop_root'' (req_Params mcp_drop)
     = Inr (True, Some protect_database) \<and>
   ''fs.read'' \<noteq> [] \<and>
   find (\<lambda>rule. Action rule = ''stall'' \<and>
           rule_applies demo_deps rule ''fs.read'' (req_Params mcp_read))
     (Policies demo_policy) = None \<and>
   evaluatePolicy demo_deps demo_proxy ''fs.read'' (req_Params mcp_read) = Inr (False, None)"
proof -
  have h1: "''db.drop_root'' \<noteq> []" and h1': "''fs.read'' \<noteq> []" by simp_all
  have h2: "policy demo_proxy = Some demo_policy" by (simp add: demo_proxy_def new_proxy_def)
  have f1: "find (\<lambda>rule. Action rule = ''stall'' \<and>
           rule_applies demo_deps rule ''db.drop_root'' (req_Params mcp_drop))
     (Policies demo_policy) = Some protect_database"
    by (simp add: rule_applies_def demo_deps_def demo_policy_def audit_all_def protect_database_def)
  have f2: "find (\<lambda>rule. Action rule = ''stall'' \<and>
           rule_applies demo_deps rule ''fs.read'' (req_Params mcp_read))
     (Policies demo_policy) = None"
    by (simp add: rule_applies_def demo_deps_def demo_policy_def audit_all_def protect_database_def)
  show ?thesis
    using decision_is_first_stall_rule [OF h1 h2, of demo_deps "req_Params mcp_drop"]
      decision_is_first_stall_rule [OF h1' h2, of demo_deps "req_Params mcp_read"] h2 f1 f2
    by simp
qed

section \<open>Rejected and unsignalled stalls\<close>

text \<open>
  Claim C3, as stated: when a stall resolves by rejection or by timeout the interceptor
  submits a \<^verbatim>\<open>rejection\<close> event. It fails: after a rejection through the control API the
  only event the request has submitted is the \<^verbatim>\<open>blocked\<close> event.
\<close>

theorem rejection_submits_no_rejection_event:
  "map ev_EventType (submitted (fst (interceptRequest demo_deps
       (demo_env [ApiReject ''/api/reject/3f2a9c1e'']) demo_proxy post_drop))) = [''blocked'']"
  by (simp add: demo_defs code_defs Let_def)

text \<open>
  Claim C3, amended. When a stalled request resolves by rejection, the interceptor
  returns after building and logging the JSON-RPC error with code -32000 and message
  "Stall rejected or failed"; the only event it has submitted is the \<^verbatim>\<open>blocked\<close> event, so
  no \<^verbatim>\<open>tool_call\<close> and no \<^verbatim>\<open>rejection\<close> event, and the last-event-per-task map is
  unchanged. There is no timeout: a stall that no signal reaches never returns, and has
  submitted the \<^verbatim>\<open>blocked\<close> event only.
\<close>

theorem stall_rejected_or_unsignalled:
  assumes "hr_Method req = ''POST''" and "hr_Body req = Body b"
    and "extractTaskMetadata D b = Inr (mcpReq, taskID, taskState)"
    and "worker_healthy v"
    and "evaluatePolicy D v (req_Method mcpReq) (req_Params mcpReq) = Inr (True, Some rule)"
  shows "(snd (handleStall E v taskID taskState mcpReq (Some rule)) = StallReturned (Some StallRejected) \<longrightarrow>
            snd (snd (interceptRequest D E v req)) = Returned \<and>
            (\<exists>e. submitted (fst (interceptRequest D E v req)) = submitted v @ [e] \<and>
                 ev_EventType e = ''blocked'') \<and>
            lastEventByTask (fst (interceptRequest D E v req)) = lastEventByTask v \<and>
            logged (fst (interceptRequest D E v req)) =
              logged (fst (handleStall E v taskID taskState mcpReq (Some rule))) @
              [LogSecurity ''Stall rejected or failed''
                 \<lparr>resp_JSONRPC = ''2.0'', resp_ID = JNull, resp_Result = Map.empty,
                   resp_Error = [''code'' \<mapsto> JNum (- 32000),
                                 ''message'' \<mapsto> JStr ''Stall rejected or failed'']\<rparr>]) \<and>
         (stall_signals E = [] \<longrightarrow>
            snd (snd (interceptRequest D E v req)) = Waiting \<and>
            (\<exists>e. submitted (fst (interceptRequest D E v req)) = submitted v @ [e] \<and>
                 ev_EventType e = ''blocked''))"
proof -
  obtain v1 r e where hs: "handleStall E v taskID taskState mcpReq (Some rule) = (v1, r)"
    and s1: "submitted v1 = submitted v @ [e]" and e: "ev_EventType e = ''blocked''"
    and l1: "lastEventByTask v1 = lastEventByTask v"
    using handleStall_shape [of E v taskID taskState mcpReq rule] by blast
  have rej: "r = StallReturned (Some StallRejected) \<Longrightarrow>
      interceptRequest D E v req =
        (sendErrorResponse v1 403 (- 32000) ''Stall rejected or failed'', req, Returned)"
    using hs by (simp add: interceptRequest_stall [OF assms])
  have wait: "r = StallWaiting \<Longrightarrow> interceptRequest D E v req = (v1, req, Waiting)"
    using hs by (simp add: interceptRequest_stall [OF assms])
  have w: "stall_signals E = [] \<Longrightarrow> r = StallWaiting"
    using handleStall_unsignalled [of E v taskID taskState mcpReq rule] hs by simp
  show ?thesis
    using rej wait w hs s1 e l1 by (auto simp add: sendErrorResponse_def Printf_def)
qed

theorem stall_rejected_or_unsignalled_witness:
  "hr_Method post_drop = ''POST'' \<and> hr_Body post_drop = Body body_drop \<and>
   extractTaskMetadata demo_deps body_drop = Inr (mcp_drop, ''T2'', ''working'') \<and>
   worker_healthy demo_proxy \<and>
   evaluatePolicy demo_deps demo_proxy (req_Method mcp_drop) (req_Params mcp_drop)
     = Inr (True, Some protect_database) \<and>
   snd (handleStall (demo_env [ApiReject ''/api/reject/3f2a9c1e'']) demo_proxy ''T2'' ''working''
          mcp_drop (Some protect_database)) = StallReturned (Some StallRejected) \<and>
   snd (snd (interceptRequest demo_deps (demo_env [ApiReject ''/api/reject/3f2a9c1e''])
          demo_proxy post_drop)) = Returned \<and>
   lastEventByTask (fst (interceptRequest demo_deps (demo_env [ApiReject ''/api/reject/3f2a9c1e''])
          demo_proxy post_drop)) = lastEventByTask demo_proxy \<and>
   stall_signals (demo_env []) = [] \<and>
   snd (snd (interceptRequest demo_deps (demo_env []) demo_proxy post_drop)) = Waiting"
proof -
  have h1: "hr_Method post_drop = ''POST''" and h2: "hr_Body post_drop = Body body_drop"
    by (simp_all add: post_drop_def)
  have h3: "extractTaskMetadata demo_deps body_drop = Inr (mcp_drop, ''T2'', ''working'')"
    by (simp add: extractTaskMetadata_def assert_Check_def demo_deps_def body_drop_def body_read_def
          mcp_drop_def Let_def)
  have h4: "worker_healthy demo_proxy" by (simp add: demo_proxy_def new_proxy_def)
  have h5: "evaluatePolicy demo_deps demo_proxy (req_Method mcp_drop) (req_Params mcp_drop)
     = Inr (True, Some protect_database)"
    by (simp add: evaluatePolicy_def shouldStallMethod_def assert_Check_def demo_deps_def
          demo_proxy_def new_proxy_def demo_policy_def audit_all_def protect_database_def
          mcp_drop_def)
  have h6: "snd (handleStall (demo_env [ApiReject ''/api/reject/3f2a9c1e'']) demo_proxy ''T2''
          ''working'' mcp_drop (Some protect_database)) = StallReturned (Some StallRejected)"
    by (simp add: handleStall_def Let_def chan_recv_def Printf_def Submit_def demo_env_def
          handleReject_def TrimPrefix_def demo_proxy_def new_proxy_def)
  have h7: "stall_signals (demo_env []) = []" by (simp add: demo_env_def)
  show ?thesis
    using stall_rejected_or_unsignalled [OF h1 h2 h3 h4 h5, of "demo_env [ApiReject ''/api/reject/3f2a9c1e'']"]
      stall_rejected_or_unsignalled [OF h1 h2 h3 h4 h5, of "demo_env []"]
      h1 h2 h3 h4 h5 h6 h7
    by simp
qed

section \<open>Redaction\<close>

text \<open>
  Claim C4. For every request matching a rule with a non-empty redact list the committed
  \<^verbatim>\<open>tool_call\<close> event should hold "[REDACTED]" at the listed keys. The code does this only
  for a stall rule whose stall was approved. A rule with any other action is never
  returned by the policy evaluation, so its redact list is never applied: with the single
  rule \<^verbatim>\<open>redact-auth\<close> (allow, redact password and token) the \<^verbatim>\<open>tool_call\<close> event of an
  \<^verbatim>\<open>auth.login\<close> request carries the password and the token verbatim and no policy id.
  (In general: \<open>unstalled_call_is_unredacted\<close>, against \<open>approved_stall_is_redacted\<close>.)
\<close>

theorem allow_rule_is_not_redacted:
  "spec_decision demo_deps login_policy ''auth.login'' (req_Params mcp_login) = Some redact_auth \<and>
   Redact redact_auth = [''password'', ''token''] \<and>
   map (\<lambda>e. (ev_EventType e, ev_PolicyID e, ev_Params e ''user'', ev_Params e ''password'',
              ev_Params e ''token''))
     (submitted (fst (interceptRequest demo_deps (demo_env []) (new_proxy (Some login_policy))
        post_login)))
     = [(''tool_call'', [], Some (JStr ''a''), Some (JStr ''p''), Some (JStr ''t''))]"
  by (simp add: spec_decision_def rule_applies_def demo_defs code_defs Let_def)

section \<open>Key rotation requests\<close>

text \<open>
  Claim C5, as stated: a successful rotation request emits a \<^verbatim>\<open>rekey\<close> event to the
  ledger. It fails: after a successful rotation the handler has answered 200 and has
  submitted nothing.
\<close>

theorem rekey_submits_no_event:
  "fst (snd (handleRekey (Inr (''a1b2c3'', ''d4e5f6'')) demo_proxy)) = 200 \<and>
   submitted (fst (handleRekey (Inr (''a1b2c3'', ''d4e5f6'')) demo_proxy)) = []"
  by (simp add: handleRekey_def Printf_def demo_proxy_def new_proxy_def)

text \<open>
  Claim C5, amended. The handler submits no event. When the signer's rotation succeeds it
  answers 200 with a body that holds the old and the new public key in hex, and logs
  both; when the rotation fails it answers 500 with the error text and changes nothing.
\<close>

theorem rekey_response:
  "submitted (fst (handleRekey rotated v)) = submitted v \<and>
   (case rotated of
      Inl err \<Rightarrow> handleRekey rotated v = (v, 500, ''Failed to rotate key: '' @ err @ nl)
    | Inr (oldPubKey, newPubKey) \<Rightarrow>
        fst (snd (handleRekey rotated v)) = 200 \<and>
        snd (snd (handleRekey rotated v)) =
          ''Key rotated successfully'' @ nl @ ''Old: '' @ oldPubKey @ nl @ ''New: '' @ newPubKey \<and>
        fst (handleRekey rotated v) = v\<lparr>logged := logged v @ [LogKeyRotation oldPubKey newPubKey]\<rparr>)"
  by (simp add: handleRekey_def Printf_def split: sum.split prod.split)

section \<open>Signals of the approval gateway\<close>

text \<open>
  Claim C6. A signal for an unknown event id is answered 404, one for an id already
  signalled 409, and the entry of an id is removed on signal, so that every later signal
  for it is answered 404. The code never removes an entry. After a stall has been
  approved and its request has gone on, the entry is still registered with an empty
  buffer: a second approval of the same id is answered 200, and a rejection after that
  409. Only an id that was never registered is answered 404
  (\<open>registered_signal_is_never_unknown\<close>).
\<close>

theorem finished_stall_can_be_signalled_again:
  "stallSignals (fst (interceptRequest demo_deps (demo_env [ApiApprove ''/api/approve/3f2a9c1e''])
      demo_proxy post_drop)) ''3f2a9c1e'' = Some [] \<and>
   fst (snd (handleApprove
      (fst (interceptRequest demo_deps (demo_env [ApiApprove ''/api/approve/3f2a9c1e''])
         demo_proxy post_drop))
      ''/api/approve/3f2a9c1e'')) = 200 \<and>
   fst (snd (handleReject
      (fst (handleApprove
         (fst (interceptRequest demo_deps (demo_env [ApiApprove ''/api/approve/3f2a9c1e''])
            demo_proxy post_drop))
         ''/api/approve/3f2a9c1e''))
      ''/api/reject/3f2a9c1e'')) = 409 \<and>
   fst (snd (handleApprove
      (fst (interceptRequest demo_deps (demo_env [ApiApprove ''/api/approve/3f2a9c1e''])
         demo_proxy post_drop))
      ''/api/approve/deadbeef'')) = 404"
  by (simp add: demo_defs code_defs Let_def)

section \<open>Task hierarchy\<close>

text \<open>
  Claim C8. In every run of the proxy from its initial state, each \<^verbatim>\<open>tool_call\<close> event
  with a non-empty task id has as parent id the id of the most recent earlier
  \<^verbatim>\<open>tool_call\<close> event of the same task (the events the last-event-per-task map records),
  and the empty string when there is none; the parent stands at a strictly smaller
  position, no \<^verbatim>\<open>tool_call\<close> event of the task lies between the two, and the parent
  relation on positions is acyclic with at most one parent for each event: a forest.
  After every step the map holds, for each task, the id of its most recent \<^verbatim>\<open>tool_call\<close>
  event, so each such event is recorded in the map when it is submitted.
\<close>

theorem parent_is_previous_call_of_task:
  assumes "v = run D (new_proxy pol) ops"
  shows "(\<forall>i<length (submitted v).
            ev_EventType (submitted v ! i) = ''tool_call'' \<longrightarrow> ev_TaskID (submitted v ! i) \<noteq> [] \<longrightarrow>
            (case parent_index (submitted v) i of
               None \<Rightarrow> ev_ParentID (submitted v ! i) = []
             | Some j \<Rightarrow>
                 j < i \<and> ev_ParentID (submitted v ! i) = ev_ID (submitted v ! j) \<and>
                 ev_EventType (submitted v ! j) = ''tool_call'' \<and>
                 ev_TaskID (submitted v ! j) = ev_TaskID (submitted v ! i) \<and>
                 (\<forall>k. j < k \<and> k < i \<longrightarrow>
                    \<not> call_of (ev_TaskID (submitted v ! i)) (submitted v ! k)))) \<and>
         (\<forall>t. t \<noteq> [] \<longrightarrow>
            lastEventByTask v t =
              map_option (\<lambda>j. ev_ID (submitted v ! j)) (last_index (call_of t) (submitted v))) \<and>
         acyclic {(i, j). parent_index (submitted v) i = Some j}"
proof -
  have inv: "links_inv v" using assms by (simp add: links_inv_run links_inv_new_proxy)
  have a: "\<And>i. i < length (submitted v) \<Longrightarrow> ev_EventType (submitted v ! i) = ''tool_call'' \<Longrightarrow>
      ev_TaskID (submitted v ! i) \<noteq> [] \<Longrightarrow>
      (case parent_index (submitted v) i of
               None \<Rightarrow> ev_ParentID (submitted v ! i) = []
             | Some j \<Rightarrow>
                 j < i \<and> ev_ParentID (submitted v ! i) = ev_ID (submitted v ! j) \<and>
                 ev_EventType (submitted v ! j) = ''tool_call'' \<and>
                 ev_TaskID (submitted v ! j) = ev_TaskID (submitted v ! i) \<and>
                 (\<forall>k. j < k \<and> k < i \<longrightarrow>
                    \<not> call_of (ev_TaskID (submitted v ! i)) (submitted v ! k)))"
  proof -
    fix i
    assume i: "i < length (submitted v)" and c: "ev_EventType (submitted v ! i) = ''tool_call''"
      and t: "ev_TaskID (submitted v ! i) \<noteq> []"
    from inv i c t have p: "ev_ParentID (submitted v ! i) =
        (case parent_index (submitted v) i of None \<Rightarrow> [] | Some j \<Rightarrow> ev_ID (submitted v ! j))"
      by (simp add: links_inv_def linked_def)
    show "(case parent_index (submitted v) i of
               None \<Rightarrow> ev_ParentID (submitted v ! i) = []
             | Some j \<Rightarrow>
                 j < i \<and> ev_ParentID (submitted v ! i) = ev_ID (submitted v ! j) \<and>
                 ev_EventType (submitted v ! j) = ''tool_call'' \<and>
                 ev_TaskID (submitted v ! j) = ev_TaskID (submitted v ! i) \<and>
                 (\<forall>k. j < k \<and> k < i \<longrightarrow>
                    \<not> call_of (ev_TaskID (submitted v ! i)) (submitted v ! k)))"
    proof (cases "parent_index (submitted v) i")
      case None
      with p show ?thesis by simp
    next
      case (Some j)
      then have li: "last_index (call_of (ev_TaskID (submitted v ! i))) (take i (submitted v)) = Some j"
        by (simp add: parent_index_def)
      from last_index_Some [OF li] i
      have j: "j < i" by simp
      have "call_of (ev_TaskID (submitted v ! i)) (take i (submitted v) ! j)"
        by (rule last_index_Some [OF li, THEN conjunct2])
      with j have cj: "call_of (ev_TaskID (submitted v ! i)) (submitted v ! j)" by simp
      have late: "\<forall>k. j < k \<and> k < i \<longrightarrow> \<not> call_of (ev_TaskID (submitted v ! i)) (submitted v ! k)"
      proof (intro allI impI)
        fix k assume k: "j < k \<and> k < i"
        with i have "k < length (take i (submitted v))" by simp
        with last_index_latest [OF li, of k] k show
          "\<not> call_of (ev_TaskID (submitted v ! i)) (submitted v ! k)" by simp
      qed
      from Some p j cj late show ?thesis by (simp add: call_of_def)
    qed
  qed
  have b: "\<forall>t. t \<noteq> [] \<longrightarrow>
            lastEventByTask v t =
              map_option (\<lambda>j. ev_ID (submitted v ! j)) (last_index (call_of t) (submitted v))"
    using inv by (simp add: links_inv_def map_tracks_def)
  show ?thesis
  proof (intro conjI allI impI)
    fix i
    assume "i < length (submitted v)" "ev_EventType (submitted v ! i) = ''tool_call''"
      "ev_TaskID (submitted v ! i) \<noteq> []"
    then show "(case parent_index (submitted v) i of
               None \<Rightarrow> ev_ParentID (submitted v ! i) = []
             | Some j \<Rightarrow>
                 j < i \<and> ev_ParentID (submitted v ! i) = ev_ID (submitted v ! j) \<and>
                 ev_EventType (submitted v ! j) = ''tool_call'' \<and>
                 ev_TaskID (submitted v ! j) = ev_TaskID (submitted v ! i) \<and>
                 (\<forall>k. j < k \<and> k < i \<longrightarrow>
                    \<not> call_of (ev_TaskID (submitted v ! i)) (submitted v ! k)))"
      by (rule a)
  next
    fix t :: string
    assume "t \<noteq> []"
    with b show "lastEventByTask v t =
              map_option (\<lambda>j. ev_ID (submitted v ! j)) (last_index (call_of t) (submitted v))"
      by simp
  next
    show "acyclic {(i, j). parent_index (submitted v) i = Some j}"
      by (rule parent_links_acyclic)
  qed
qed

theorem parent_is_previous_call_of_task_witness:
  "(2::nat) < length (submitted (run demo_deps (new_proxy (Some demo_policy)) demo_ops)) \<and>
   ev_EventType (submitted (run demo_deps (new_proxy (Some demo_policy)) demo_ops) ! 2) = ''tool_call'' \<and>
   ev_TaskID (submitted (run demo_deps (new_proxy (Some demo_policy)) demo_ops) ! 2) = ''T1'' \<and>
   parent_index (submitted (run demo_deps (new_proxy (Some demo_policy)) demo_ops)) 2 = Some 0 \<and>
   ev_ParentID (submitted (run demo_deps (new_proxy (Some demo_policy)) demo_ops) ! 2) = ''7d1e5b2a'' \<and>
   ev_ID (submitted (run demo_deps (new_proxy (Some demo_policy)) demo_ops) ! 0) = ''7d1e5b2a'' \<and>
   ev_ParentID (submitted (run demo_deps (new_proxy (Some demo_policy)) demo_ops) ! 0) = [] \<and>
   lastEventByTask (run demo_deps (new_proxy (Some demo_policy)) demo_ops) ''T1'' = Some ''c9b7a5d3''"
proof -
  let ?v = "run demo_deps (new_proxy (Some demo_policy)) demo_ops"
  have ev: "length (submitted ?v) = 3 \<and>
      ev_EventType (submitted ?v ! 2) = ''tool_call'' \<and> ev_TaskID (submitted ?v ! 2) = ''T1'' \<and>
      ev_ID (submitted ?v ! 0) = ''7d1e5b2a'' \<and>
      parent_index (submitted ?v) 2 = Some 0 \<and>
      last_index (call_of ''T1'') (submitted ?v) = Some 2 \<and>
      ev_ID (submitted ?v ! 2) = ''c9b7a5d3''"
    by (simp add: run_def demo_ops_def demo_defs code_defs Let_def parent_index_def call_of_def)
  from parent_is_previous_call_of_task [OF refl, of demo_deps "Some demo_policy" demo_ops]
  have A: "2 < length (submitted ?v) \<longrightarrow>
            ev_EventType (submitted ?v ! 2) = ''tool_call'' \<longrightarrow> ev_TaskID (submitted ?v ! 2) \<noteq> [] \<longrightarrow>
            (case parent_index (submitted ?v) 2 of
               None \<Rightarrow> ev_ParentID (submitted ?v ! 2) = []
             | Some j \<Rightarrow>
                 j < 2 \<and> ev_ParentID (submitted ?v ! 2) = ev_ID (submitted ?v ! j) \<and>
                 ev_EventType (submitted ?v ! j) = ''tool_call'' \<and>
                 ev_TaskID (submitted ?v ! j) = ev_TaskID (submitted ?v ! 2) \<and>
                 (\<forall>k. j < k \<and> k < 2 \<longrightarrow>
                    \<not> call_of (ev_TaskID (submitted ?v ! 2)) (submitted ?v ! k)))"
    and B: "''T1'' \<noteq> [] \<longrightarrow> lastEventByTask ?v ''T1'' =
              map_option (\<lambda>j. ev_ID (submitted ?v ! j)) (last_index (call_of ''T1'') (submitted ?v))"
    by blast+
  have p0: "ev_ParentID (submitted ?v ! 0) = []"
    by (simp add: run_def demo_ops_def demo_defs code_defs Let_def)
  from A B ev p0 show ?thesis by simp
qed

section \<open>The blocked event\<close>

text \<open>
  Claim C9. For every stalled request the \<^verbatim>\<open>blocked\<close> event is submitted with the
  original parameters of the request, whatever the redact list of the matched rule and
  however the stall ends: the event the request submits first is the \<^verbatim>\<open>blocked\<close> event,
  and its parameters are those of the request.
\<close>

theorem blocked_event_is_unredacted:
  assumes "hr_Method req = ''POST''" and "hr_Body req = Body b"
    and "extractTaskMetadata D b = Inr (mcpReq, taskID, taskState)"
    and "worker_healthy v"
    and "evaluatePolicy D v (req_Method mcpReq) (req_Params mcpReq) = Inr (True, Some rule)"
  shows "length (submitted v) < length (submitted (fst (interceptRequest D E v req))) \<and>
     take (length (submitted v)) (submitted (fst (interceptRequest D E v req))) = submitted v \<and>
     ev_EventType (submitted (fst (interceptRequest D E v req)) ! length (submitted v)) = ''blocked'' \<and>
     ev_WasBlocked (submitted (fst (interceptRequest D E v req)) ! length (submitted v)) \<and>
     ev_PolicyID (submitted (fst (interceptRequest D E v req)) ! length (submitted v)) = rule_ID rule \<and>
     ev_Params (submitted (fst (interceptRequest D E v req)) ! length (submitted v)) = req_Params mcpReq"
proof -
  obtain v1 r e where hs: "handleStall E v taskID taskState mcpReq (Some rule) = (v1, r)"
    and r: "r = StallWaiting \<or> r = StallReturned None \<or> r = StallReturned (Some StallRejected)"
    and s1: "submitted v1 = submitted v @ [e]"
    and e: "ev_EventType e = ''blocked''" "ev_Params e = req_Params mcpReq"
           "ev_PolicyID e = rule_ID rule" "ev_WasBlocked e"
    using handleStall_shape [of E v taskID taskState mcpReq rule] by blast
  obtain c where s2: "submitted (submitToolCallEvent E v1 taskID taskState mcpReq (Some rule))
      = submitted v1 @ [c]"
    using submitToolCallEvent_shape [of E v1 taskID taskState mcpReq "Some rule"] by blast
  have "\<exists>rest. submitted (fst (interceptRequest D E v req)) = submitted v @ e # rest"
    using r s1 s2 hs
    by (auto simp add: interceptRequest_stall [OF assms] sendErrorResponse_def Printf_def)
  then obtain rest where "submitted (fst (interceptRequest D E v req)) = submitted v @ e # rest" ..
  with e show ?thesis by simp
qed

theorem blocked_event_is_unredacted_witness:
  "hr_Method post_drop = ''POST'' \<and> hr_Body post_drop = Body body_drop \<and>
   extractTaskMetadata demo_deps body_drop = Inr (mcp_drop, ''T2'', ''working'') \<and>
   worker_healthy demo_proxy \<and>
   evaluatePolicy demo_deps demo_proxy (req_Method mcp_drop) (req_Params mcp_drop)
     = Inr (True, Some protect_database) \<and>
   Redact protect_database = [''table''] \<and>
   ev_EventType (submitted (fst (interceptRequest demo_deps
       (demo_env [ApiApprove ''/api/approve/3f2a9c1e'']) demo_proxy post_drop)) ! 0) = ''blocked'' \<and>
   ev_Params (submitted (fst (interceptRequest demo_deps
       (demo_env [ApiApprove ''/api/approve/3f2a9c1e'']) demo_proxy post_drop)) ! 0) ''table''
     = Some (JStr ''users'') \<and>
   ev_EventType (submitted (fst (interceptRequest demo_deps
       (demo_env [ApiApprove ''/api/approve/3f2a9c1e'']) demo_proxy post_drop)) ! 1) = ''tool_call'' \<and>
   ev_Params (submitted (fst (interceptRequest demo_deps
       (demo_env [ApiApprove ''/api/approve/3f2a9c1e'']) demo_proxy post_drop)) ! 1) ''table''
     = Some (JStr ''[REDACTED]'')"
proof -
  have h1: "hr_Method post_drop = ''POST''" and h2: "hr_Body post_drop = Body body_drop"
    by (simp_all add: post_drop_def)
  have h3: "extractTaskMetadata demo_deps body_drop = Inr (mcp_drop, ''T2'', ''working'')"
    by (simp add: extractTaskMetadata_def assert_Check_def demo_deps_def body_drop_def body_read_def
          mcp_drop_def Let_def)
  have h4: "worker_healthy demo_proxy" by (simp add: demo_proxy_def new_proxy_def)
  have h5: "evaluatePolicy demo_deps demo_proxy (req_Method mcp_drop) (req_Params mcp_drop)
     = Inr (True, Some protect_database)"
    by (simp add: evaluatePolicy_def shouldStallMethod_def assert_Check_def demo_deps_def
          demo_proxy_def new_proxy_def demo_policy_def audit_all_def protect_database_def
          mcp_drop_def)
  have h6: "length (submitted demo_proxy) = 0" by (simp add: demo_proxy_def new_proxy_def)
  have h7: "ev_EventType (submitted (fst (interceptRequest demo_deps
       (demo_env [ApiApprove ''/api/approve/3f2a9c1e'']) demo_proxy post_drop)) ! 1) = ''tool_call'' \<and>
     ev_Params (submitted (fst (interceptRequest demo_deps
       (demo_env [ApiApprove ''/api/approve/3f2a9c1e'']) demo_proxy post_drop)) ! 1) ''table''
     = Some (JStr ''[REDACTED]'')"
    by (simp add: demo_defs code_defs Let_def)
  show ?thesis
    using blocked_event_is_unredacted
        [OF h1 h2 h3 h4 h5, of "demo_env [ApiApprove ''/api/approve/3f2a9c1e'']"]
      h1 h2 h3 h4 h5 h6 h7
    by (simp add: protect_database_def mcp_drop_def)
qed

section \<open>The response hook\<close>

text \<open>
  Claim C10, as stated: the response interceptor always restores the body and, when the
  worker is unhealthy, returns the response unchanged with a nil error. It fails when
  reading the body fails: the interceptor returns the read error without restoring
  anything, and the proxy answers 502 in place of the upstream's response.
\<close>

theorem read_failure_is_returned:
  "snd (interceptResponse demo_deps demo_renv (demo_proxy\<lparr>worker_healthy := False\<rparr>) upstream_broken)
     = (upstream_broken, Some (ReadError ''unexpected EOF'')) \<and>
   snd (snd (ServeHTTP demo_deps (demo_env []) demo_renv broken_upstream
          (demo_proxy\<lparr>worker_healthy := False\<rparr>) post_read)) = Some BadGateway"
  by (simp add: demo_defs code_defs Let_def broken_upstream_def)

text \<open>
  Claim C10, amended. Whenever the body of the upstream response is read, the interceptor
  restores it, leaves the response unchanged and returns nil; when the body does not
  parse as a JSON-RPC response the state is unchanged, and when the worker is unhealthy
  no event is submitted and the task maps are unchanged. When reading the body fails,
  the interceptor returns the read error and changes nothing.
\<close>

theorem response_left_unchanged:
  "(rs_Body resp = Body b \<longrightarrow>
      snd (interceptResponse D R v resp) = (resp, None) \<and>
      (Unmarshal_response D b = None \<longrightarrow> fst (interceptResponse D R v resp) = v) \<and>
      (\<not> worker_healthy v \<longrightarrow>
         submitted (fst (interceptResponse D R v resp)) = submitted v \<and>
         activeTasks (fst (interceptResponse D R v resp)) = activeTasks v \<and>
         lastEventByTask (fst (interceptResponse D R v resp)) = lastEventByTask v)) \<and>
   (rs_Body resp = BodyErr e \<longrightarrow>
      interceptResponse D R v resp = (v, resp, Some (ReadError e)))"
  by (auto simp add: interceptResponse_def Let_def Printf_def split: option.split)

theorem response_left_unchanged_witness:
  "rs_Body upstream_ok = Body body_result \<and>
   snd (interceptResponse demo_deps demo_renv (demo_proxy\<lparr>worker_healthy := False\<rparr>) upstream_ok)
     = (upstream_ok, None) \<and>
   \<not> worker_healthy (demo_proxy\<lparr>worker_healthy := False\<rparr>) \<and>
   submitted (fst (interceptResponse demo_deps demo_renv (demo_proxy\<lparr>worker_healthy := False\<rparr>)
      upstream_ok)) = [] \<and>
   rs_Body (upstream_ok\<lparr>rs_Body := Body ''<html>''\<rparr>) = Body ''<html>'' \<and>
   Unmarshal_response demo_deps ''<html>'' = None \<and>
   interceptResponse demo_deps demo_renv demo_proxy (upstream_ok\<lparr>rs_Body := Body ''<html>''\<rparr>)
     = (demo_proxy, upstream_ok\<lparr>rs_Body := Body ''<html>''\<rparr>, None) \<and>
   rs_Body upstream_broken = BodyErr ''unexpected EOF'' \<and>
   interceptResponse demo_deps demo_renv demo_proxy upstream_broken
     = (demo_proxy, upstream_broken, Some (ReadError ''unexpected EOF''))"
proof -
  have h1: "rs_Body upstream_ok = Body body_result" by (simp add: upstream_ok_def)
  have h2: "\<not> worker_healthy (demo_proxy\<lparr>worker_healthy := False\<rparr>)" by simp
  have h3: "rs_Body (upstream_ok\<lparr>rs_Body := Body ''<html>''\<rparr>) = Body ''<html>''" by simp
  have h4: "Unmarshal_response demo_deps ''<html>'' = None"
    by (simp add: demo_deps_def body_result_def)
  have h5: "rs_Body upstream_broken = BodyErr ''unexpected EOF''" by (simp add: upstream_broken_def)
  have h6: "submitted (demo_proxy\<lparr>worker_healthy := False\<rparr>) = []"
    by (simp add: demo_proxy_def new_proxy_def)
  show ?thesis
    using response_left_unchanged [of upstream_ok body_result demo_deps demo_renv
                      "demo_proxy\<lparr>worker_healthy := False\<rparr>" "''unexpected EOF''"]
      response_left_unchanged [of "upstream_ok\<lparr>rs_Body := Body ''<html>''\<rparr>" "''<html>''" demo_deps demo_renv
                      demo_proxy "''unexpected EOF''"]
      response_left_unchanged [of upstream_broken body_result demo_deps demo_renv demo_proxy "''unexpected EOF''"]
      h1 h2 h3 h4 h5 h6
    by (simp add: prod_eq_iff)
qed

end
